theory Spec2Isabelle
  imports Main "HOL-Library.List_Lexorder"
begin

section \<open>Python strings\<close>

text \<open>
  The module \<^verbatim>\<open>pyup/requirements.py\<close> works on Python text. A text is modelled as a
  \<^typ>\<open>string\<close>, one \<^typ>\<open>char\<close> per code point, which covers the code points below 256.
  The string methods the module calls are written out here with Python's names.
\<close>

abbreviation LF :: char where "LF \<equiv> CHR 0x0A"
abbreviation CR :: char where "CR \<equiv> CHR 0x0D"
abbreviation TAB :: char where "TAB \<equiv> CHR 0x09"
abbreviation BACKSLASH :: char where "BACKSLASH \<equiv> CHR 0x5C"

text \<open>\<^verbatim>\<open>s.startswith(p)\<close> and \<^verbatim>\<open>s.endswith(p)\<close>.\<close>

definition startswith :: "string \<Rightarrow> string \<Rightarrow> bool" where
  "startswith s p = (take (length p) s = p)"

definition endswith :: "string \<Rightarrow> string \<Rightarrow> bool" where
  "endswith s p = (length p \<le> length s \<and> drop (length s - length p) s = p)"

text \<open>\<^verbatim>\<open>sub in s\<close>: \<open>sub\<close> occurs in \<open>s\<close> as a run of consecutive characters.\<close>

fun str_in :: "string \<Rightarrow> string \<Rightarrow> bool" where
  "str_in sub [] = (sub = [])"
| "str_in sub (c # cs) = (startswith (c # cs) sub \<or> str_in sub cs)"

text \<open>
  \<^verbatim>\<open>s.split(sep)\<close> for a separator that is not empty (the module only passes the
  literals \<^verbatim>\<open>"#"\<close>, \<^verbatim>\<open>" "\<close>, \<^verbatim>\<open>"/"\<close>, \<^verbatim>\<open>"pyup:"\<close> and \<^verbatim>\<open>"rq.filter:"\<close>): the text is cut at
  every occurrence of \<open>sep\<close>, scanning from the left; the result always has at least one
  field. \<open>cur\<close> holds the characters of the field being read.
\<close>

fun split_from :: "string \<Rightarrow> string \<Rightarrow> string \<Rightarrow> string list" where
  "split_from sep cur [] = [cur]"
| "split_from sep cur (c # cs) =
     (if sep \<noteq> [] \<and> startswith (c # cs) sep
      then cur # split_from sep [] (drop (length sep) (c # cs))
      else split_from sep (cur @ [c]) cs)"

definition split :: "string \<Rightarrow> string \<Rightarrow> string list" where
  "split s sep = split_from sep [] s"

text \<open>\<^verbatim>\<open>sep.join(xs)\<close>.\<close>

fun join :: "string \<Rightarrow> string list \<Rightarrow> string" where
  "join sep [] = []"
| "join sep [x] = x"
| "join sep (x # y # ys) = x @ sep @ join sep (y # ys)"

text \<open>
  \<^verbatim>\<open>s.replace(old, new)\<close> for a non-empty \<open>old\<close> (the module passes \<^verbatim>\<open>"-r "\<close>,
  \<^verbatim>\<open>"--requirement "\<close> and a tab followed by \<^verbatim>\<open>#\<close>): every occurrence found scanning from
  the left is replaced, and the scan goes on behind it.
\<close>

fun replace :: "string \<Rightarrow> string \<Rightarrow> string \<Rightarrow> string" where
  "replace [] old new = []"
| "replace (c # cs) old new =
     (if old \<noteq> [] \<and> startswith (c # cs) old
      then new @ replace (drop (length old) (c # cs)) old new
      else c # replace cs old new)"

text \<open>
  \<^verbatim>\<open>s.strip()\<close> removes leading and trailing whitespace. For a text string the
  whitespace characters below 256 are the ASCII controls 9 to 13 and 28 to 31, the space,
  and the code points 0x85 and 0xA0.
\<close>

definition is_space :: "char \<Rightarrow> bool" where
  "is_space c = (c \<in> set [CHR 0x09, CHR 0x0A, CHR 0x0B, CHR 0x0C, CHR 0x0D, CHR 0x1C,
                           CHR 0x1D, CHR 0x1E, CHR 0x1F, CHR 0x20, CHR 0x85, CHR 0xA0])"

definition strip :: "string \<Rightarrow> string" where
  "strip s = rev (dropWhile is_space (rev (dropWhile is_space s)))"

text \<open>
  \<^verbatim>\<open>s.splitlines()\<close>: the text is cut at every line boundary, the boundary is dropped, and a
  boundary at the very end opens no further line. The boundaries below 256 are \<^verbatim>\<open>\n\<close>,
  \<^verbatim>\<open>\r\<close>, \<^verbatim>\<open>\r\n\<close> (one boundary), \<^verbatim>\<open>\v\<close>, \<^verbatim>\<open>\f\<close>, 0x1C, 0x1D, 0x1E and 0x85.
\<close>

definition is_linebreak :: "char \<Rightarrow> bool" where
  "is_linebreak c = (c \<in> set [CHR 0x0A, CHR 0x0B, CHR 0x0C, CHR 0x0D, CHR 0x1C, CHR 0x1D,
                               CHR 0x1E, CHR 0x85])"

fun splitlines_from :: "string \<Rightarrow> string \<Rightarrow> string list" where
  "splitlines_from cur [] = (if cur = [] then [] else [cur])"
| "splitlines_from cur [c] =
     (if is_linebreak c then [cur] else [cur @ [c]])"
| "splitlines_from cur (c # d # ds) =
     (if c = CR \<and> d = LF then cur # splitlines_from [] ds
      else if is_linebreak c then cur # splitlines_from [] (d # ds)
      else splitlines_from (cur @ [c]) (d # ds))"

definition splitlines :: "string \<Rightarrow> string list" where
  "splitlines s = splitlines_from [] s"

text \<open>\<^verbatim>\<open>s.lower()\<close> on the ASCII letters (package names are ASCII).\<close>

definition lower_char :: "char \<Rightarrow> char" where
  "lower_char c =
     (let n = (of_char c :: nat) in if 65 \<le> n \<and> n \<le> 90 then char_of (n + 32) else c)"

definition lower :: "string \<Rightarrow> string" where
  "lower s = map lower_char s"

text \<open>\<^verbatim>\<open>enumerate(xs)\<close>: the elements paired with their indices, counted from \<open>n\<close>.\<close>

fun enumerate_from :: "nat \<Rightarrow> 'a list \<Rightarrow> (nat \<times> 'a) list" where
  "enumerate_from n [] = []"
| "enumerate_from n (x # xs) = (n, x) # enumerate_from (Suc n) xs"

text \<open>
  \<^verbatim>\<open>sorted(xs, key=f, reverse=True)\<close>. Python's sort is stable, and with \<^verbatim>\<open>reverse=True\<close>
  elements of equal key still keep their original order: the list is reversed, sorted
  stably in ascending order, and reversed again.
\<close>

definition sorted_reverse :: "('a \<Rightarrow> 'k::linorder) \<Rightarrow> 'a list \<Rightarrow> 'a list" where
  "sorted_reverse f xs = rev (sort_key f (rev xs))"

text \<open>\<^verbatim>\<open>"{}".format(v)\<close> for a value that is a text or \<^verbatim>\<open>None\<close>.\<close>

definition format_value :: "string option \<Rightarrow> string" where
  "format_value v = (case v of None \<Rightarrow> ''None'' | Some s \<Rightarrow> s)"

section \<open>Errors and collaborators\<close>

text \<open>The exceptions the module can meet, as values.\<close>

datatype error = ValueError | TypeError | AttributeError | InvalidSpecifier | ReError

text \<open>
  A package of the catalogue (module \<^verbatim>\<open>pyup.package\<close>, which is not among the sources):
  an object with the attribute \<^verbatim>\<open>versions\<close> and the method
  \<^verbatim>\<open>latest_version(prereleases)\<close>, which answers a version or \<^verbatim>\<open>None\<close>. Both are taken as
  given with the object.
\<close>

record Package =
  versions :: "string list"
  package_latest_version :: "bool \<Rightarrow> string option"

text \<open>A pull request is an opaque reference that the orchestration attaches later.\<close>

typedecl PullRequest

text \<open>
  What \<^verbatim>\<open>pkg_resources.parse_requirements\<close> yields for one declaration: the project name
  and the list of (operator, version) pairs.
\<close>

record parsed =
  project_name :: string
  parsed_specs :: "(string \<times> string) list"

text \<open>
  Modelled from the spec: the comparator \<^verbatim>\<open>hashCmp\<close> of a parsed declaration is computed
  inside \<^verbatim>\<open>pkg_resources\<close>, which is not among the sources. The spec describes it as
  ``a derived tuple of (name, specs) or an equivalent canonical key'' that ``ignores line
  number and index server''; the name enters lower-cased, as the key does.
\<close>

definition parsed_hashCmp :: "parsed \<Rightarrow> string \<times> (string \<times> string) list" where
  "parsed_hashCmp p = (lower (project_name p), parsed_specs p)"

text \<open>
  The functions of other modules that the code calls are parameters of the model,
  collected in one record:
  \<^item> \<open>SpecifierSet\<close>: the constructor of a specifier set from its text, which raises
    \<^verbatim>\<open>InvalidSpecifier\<close> on a malformed text;
  \<^item> \<open>spec_contains\<close>: \<^verbatim>\<open>spec_set.contains(version, prereleases=...)\<close>, the flag being
    \<^verbatim>\<open>None\<close>, \<^verbatim>\<open>True\<close> or \<^verbatim>\<open>False\<close>;
  \<^item> \<open>parse_version\<close>: the parsed form of a version text, a value of an ordered type, and
    \<open>is_prerelease\<close>, its attribute of that name; every text has a parsed form (a text that
    is no release number is a legacy version, as in the releases of the library that the
    module's imports belong to), so that neither \<open>parse_version\<close> nor \<open>spec_contains\<close>
    raises on a text;
  \<^item> \<open>parse_requirements\<close>: the declarations read from a text; \<open>None\<close> stands for the
    \<^verbatim>\<open>ValueError\<close> (\<^verbatim>\<open>RequirementParseError\<close> is one) raised on malformed text;
  \<^item> \<open>fetch_package\<close>: the catalogue lookup by name and index server, which may answer
    \<^verbatim>\<open>None\<close>;
  \<^item> \<open>template_escape\<close>: what the \<^verbatim>\<open>re\<close> module makes of a backslash escape in a
    replacement template (see \<open>expand_template\<close> below).
\<close>

record ('ss, 'k) library =
  SpecifierSet :: "string \<Rightarrow> error + 'ss"
  spec_contains :: "'ss \<Rightarrow> string \<Rightarrow> bool option \<Rightarrow> bool"
  parse_version :: "string \<Rightarrow> 'k"
  is_prerelease :: "'k \<Rightarrow> bool"
  parse_requirements :: "string \<Rightarrow> parsed list option"
  fetch_package :: "string \<Rightarrow> string option \<Rightarrow> Package option"
  template_escape :: "string \<Rightarrow> string \<Rightarrow> error + string"

text \<open>
  \<^verbatim>\<open>parse_version(v)\<close> where \<open>v\<close> may be \<^verbatim>\<open>None\<close>: the library hands its argument to a
  regular expression search, which raises \<^verbatim>\<open>TypeError\<close> for \<^verbatim>\<open>None\<close>.
\<close>

definition parse_version_value :: "('ss, 'k) library \<Rightarrow> string option \<Rightarrow> error + 'k" where
  "parse_version_value L v = (case v of None \<Rightarrow> Inl TypeError | Some s \<Rightarrow> Inr (parse_version L s))"

section \<open>The regular expression substitution of \<open>update_content\<close>\<close>

text \<open>
  \<open>update_content\<close> calls \<^verbatim>\<open>re.sub(regex, new_line, content, flags=re.MULTILINE)\<close> with
  \<^verbatim>\<open>regex = "^" + re.escape(line) + "(?=\r?\n?$)"\<close>. The pattern is the literal text \<open>line\<close>
  between two anchors, so the substitution is modelled for patterns of this shape.

  \<^verbatim>\<open>$\<close> under \<^verbatim>\<open>MULTILINE\<close> holds at the end of the text and before a newline.
\<close>

definition at_eol :: "string \<Rightarrow> bool" where
  "at_eol rest = (case rest of [] \<Rightarrow> True | c # _ \<Rightarrow> c = LF)"

text \<open>\<^verbatim>\<open>c?\<close>: the texts that can remain after an optional character (greedy match first).\<close>

definition optional :: "char \<Rightarrow> string \<Rightarrow> string list" where
  "optional c rest = (case rest of [] \<Rightarrow> [rest] | d # ds \<Rightarrow> if d = c then [ds, rest] else [rest])"

text \<open>The lookahead \<^verbatim>\<open>(?=\r?\n?$)\<close> on the text behind the literal.\<close>

definition lookahead :: "string \<Rightarrow> bool" where
  "lookahead rest = list_ex at_eol (concat (map (optional LF) (optional CR rest)))"

text \<open>
  The scan of \<^verbatim>\<open>re.sub\<close> over the content, left to right. \<open>bol\<close> says that the position
  is at the start of the text or behind a newline (where \<^verbatim>\<open>^\<close> holds under \<^verbatim>\<open>MULTILINE\<close>);
  \<open>skip\<close> counts the characters of the content that the last match still covers. At a
  match the replacement \<open>new\<close> is written in place of the literal and the scan goes on
  behind the match; an empty match (an empty literal) is followed by the next character
  of the content; any other character is copied.
\<close>

fun sub_scan :: "string \<Rightarrow> string \<Rightarrow> bool \<Rightarrow> nat \<Rightarrow> string \<Rightarrow> string" where
  "sub_scan lit new bol skip [] =
     (if skip = 0 \<and> bol \<and> lit = [] \<and> lookahead [] then new else [])"
| "sub_scan lit new bol skip (c # cs) =
     (if skip > 0 then sub_scan lit new (c = LF) (skip - 1) cs
      else if bol \<and> startswith (c # cs) lit \<and> lookahead (drop (length lit) (c # cs))
      then (if lit = [] then new @ c # sub_scan lit new (c = LF) 0 cs
            else new @ sub_scan lit new (c = LF) (length lit - 1) cs)
      else c # sub_scan lit new (c = LF) 0 cs)"

text \<open>
  The replacement is a template (the documentation of \<^verbatim>\<open>re.sub\<close>: ``if it is a string,
  any backslash escapes in it are processed''). \<^verbatim>\<open>re\<close> reads it from the left before it
  searches:
  a character other than a backslash stands for itself; a backslash is read together
  with the character behind it, and a backslash that ends the template is an error
  (\<^verbatim>\<open>bad escape (end of pattern)\<close>). What a backslash followed by a character stands for
  (a control character, an octal code, a reference to a group, or an error) is the
  library's \<open>template_escape\<close>, which gets the matched text and the template behind the
  backslash.
\<close>

fun expand_template :: "('ss, 'k) library \<Rightarrow> string \<Rightarrow> string \<Rightarrow> error + string" where
  "expand_template L matched [] = Inr []"
| "expand_template L matched (c # cs) =
     (if c \<noteq> BACKSLASH
      then (case expand_template L matched cs of Inl e \<Rightarrow> Inl e | Inr t \<Rightarrow> Inr (c # t))
      else if cs = [] then Inl ReError
      else template_escape L matched cs)"

text \<open>
  \<^verbatim>\<open>re.sub\<close> for the anchored literal \<open>lit\<close>: the template is compiled first, so a
  malformed template raises whether or not the pattern matches; every match is the
  literal itself.
\<close>

definition re_sub_line :: "('ss, 'k) library \<Rightarrow> string \<Rightarrow> string \<Rightarrow> string \<Rightarrow> error + string" where
  "re_sub_line L lit repl content =
     (case expand_template L lit repl of
        Inl e \<Rightarrow> Inl e
      | Inr new \<Rightarrow> Inr (sub_scan lit new True 0 content))"

section \<open>Version Resolver\<close>

text \<open>
  \<^verbatim>\<open>Requirement.get_latest_version_within_specs(specs, versions, prereleases)\<close>: the
  specifier set is built from the joined clauses, the versions it contains are collected
  in their order, sorted by parsed version with the highest first, and the first one is
  returned, or \<^verbatim>\<open>None\<close> when there is none.
\<close>

definition get_latest_version_within_specs ::
  "('ss, 'k::linorder) library \<Rightarrow> (string \<times> string) list \<Rightarrow> string list \<Rightarrow> bool option
     \<Rightarrow> error + string option" where
  "get_latest_version_within_specs L specs vs prereleases =
     (case SpecifierSet L (join '','' (map (\<lambda>(x, y). x @ y) specs)) of
        Inl e \<Rightarrow> Inl e
      | Inr spec_set \<Rightarrow>
          (let candidates = filter (\<lambda>v. spec_contains L spec_set v prereleases) vs;
               candidates = sorted_reverse (parse_version L) candidates
           in if length candidates > 0 then Inr (Some (candidates ! 0)) else Inr None))"

section \<open>Requirement\<close>

text \<open>
  The attributes set by \<^verbatim>\<open>Requirement.__init__\<close>. The private attributes
  \<^verbatim>\<open>_fetched_package\<close> and \<^verbatim>\<open>_package\<close> (the memo of the catalogue lookup) are the fields
  \<open>p_fetched_package\<close> and \<open>p_package\<close>.
\<close>

record Requirement =
  name :: string
  key :: string
  specs :: "(string \<times> string) list"
  hashCmp :: "string \<times> (string \<times> string) list"
  line :: string
  lineno :: nat
  index_server :: "string option"
  pull_request :: "PullRequest option"
  p_fetched_package :: bool
  p_package :: "Package option"

definition Requirement_init ::
  "string \<Rightarrow> (string \<times> string) list \<Rightarrow> string \<times> (string \<times> string) list \<Rightarrow> string \<Rightarrow> nat
     \<Rightarrow> string option \<Rightarrow> Requirement" where
  "Requirement_init nm sp hc ln num idx =
     \<lparr> name = nm, key = lower nm, specs = sp, hashCmp = hc, line = ln, lineno = num,
       index_server = idx, pull_request = None, p_fetched_package = False, p_package = None \<rparr>"

text \<open>\<^verbatim>\<open>__eq__\<close> between two requirements: the comparators are compared.\<close>

definition Requirement_eq :: "Requirement \<Rightarrow> Requirement \<Rightarrow> bool" where
  "Requirement_eq r other = (hashCmp r = hashCmp other)"

definition is_pinned :: "Requirement \<Rightarrow> bool" where
  "is_pinned r = (length (specs r) = 1 \<and> fst (specs r ! 0) = ''=='')"

definition is_ranged :: "Requirement \<Rightarrow> bool" where
  "is_ranged r = (length (specs r) \<ge> 1 \<and> \<not> is_pinned r)"

definition is_loose :: "Requirement \<Rightarrow> bool" where
  "is_loose r = (length (specs r) = 0)"

text \<open>
  The property \<^verbatim>\<open>filter\<close>. The source answers \<^verbatim>\<open>False\<close> or a non-empty list of specs;
  \<open>None\<close> stands for \<^verbatim>\<open>False\<close>. The local \<^verbatim>\<open>rqfilter\<close> starts as \<^verbatim>\<open>False\<close>, which the test
  \<^verbatim>\<open>if rqfilter\<close> treats like the empty text that stands for it here. Index 1 of the
  split exists because the marker occurs in the line. The unpacking
  \<^verbatim>\<open>rqfilter, = parse_requirements(...)\<close> raises \<^verbatim>\<open>ValueError\<close> unless exactly one
  declaration is read, and the \<^verbatim>\<open>except ValueError\<close> turns every such failure into
  \<^verbatim>\<open>False\<close>.
\<close>

definition filter_rq :: "('ss, 'k) library \<Rightarrow> Requirement \<Rightarrow> (string \<times> string) list option" where
  "filter_rq L r =
     (let rqfilter =
        (if str_in ''rq.filter:'' (line r)
         then split (strip (split (line r) ''rq.filter:'' ! 1)) '' '' ! 0
         else if str_in ''pyup:'' (line r)
         then split (strip (split (line r) ''pyup:'' ! 1)) '' '' ! 0
         else [])
      in if rqfilter \<noteq> []
         then (case parse_requirements L (''filter '' @ rqfilter) of
                 Some [p] \<Rightarrow> if length (parsed_specs p) > 0 then Some (parsed_specs p) else None
               | _ \<Rightarrow> None)
         else None)"

text \<open>
  The property \<^verbatim>\<open>package\<close>: the catalogue is asked once, and the answer is kept in the
  requirement. The accessors below return the requirement as they leave it.
\<close>

definition package :: "('ss, 'k) library \<Rightarrow> Requirement \<Rightarrow> Package option \<times> Requirement" where
  "package L r =
     (if \<not> p_fetched_package r
      then (let p = fetch_package L (name r) (index_server r)
            in (p, r\<lparr> p_package := p, p_fetched_package := True \<rparr>))
      else (p_package r, r))"

definition prereleases :: "('ss, 'k) library \<Rightarrow> Requirement \<Rightarrow> bool" where
  "prereleases L r = (is_pinned r \<and> is_prerelease L (parse_version L (snd (specs r ! 0))))"

text \<open>
  The property \<^verbatim>\<open>version\<close>. For a requirement that is not pinned, \<^verbatim>\<open>specs += self.filter\<close>
  extends the list \<^verbatim>\<open>self.specs\<close> in place, so the requirement leaves with the filter's
  specs appended. An attribute of a package that is \<^verbatim>\<open>None\<close> raises \<^verbatim>\<open>AttributeError\<close>.
\<close>

definition version ::
  "('ss, 'k::linorder) library \<Rightarrow> Requirement \<Rightarrow> (error + string option) \<times> Requirement" where
  "version L r =
     (if is_pinned r then (Inr (Some (snd (specs r ! 0))), r)
      else (let r1 = (case filter_rq L r of None \<Rightarrow> r | Some f \<Rightarrow> r\<lparr> specs := specs r @ f \<rparr>)
            in case package L r1 of
                 (None, r2) \<Rightarrow> (Inl AttributeError, r2)
               | (Some p, r2) \<Rightarrow>
                   (get_latest_version_within_specs L (specs r1) (versions p)
                      (Some (prereleases L r2)), r2)))"

definition latest_version ::
  "('ss, 'k) library \<Rightarrow> Requirement \<Rightarrow> (error + string option) \<times> Requirement" where
  "latest_version L r =
     (case package L r of
        (None, r1) \<Rightarrow> (Inl AttributeError, r1)
      | (Some p, r1) \<Rightarrow> (Inr (package_latest_version p (prereleases L r1)), r1))"

definition latest_version_within_specs ::
  "('ss, 'k::linorder) library \<Rightarrow> Requirement \<Rightarrow> (error + string option) \<times> Requirement" where
  "latest_version_within_specs L r =
     (case filter_rq L r of
        Some f \<Rightarrow>
          (case package L r of
             (None, r1) \<Rightarrow> (Inl AttributeError, r1)
           | (Some p, r1) \<Rightarrow>
               (get_latest_version_within_specs L f (versions p) (Some (prereleases L r1)), r1))
      | None \<Rightarrow> latest_version L r)"

text \<open>
  The property \<^verbatim>\<open>is_outdated\<close>:
  \<^verbatim>\<open>parse_version(self.version) < parse_version(self.latest_version_within_specs)\<close>, the left
  operand first.
\<close>

definition is_outdated ::
  "('ss, 'k::linorder) library \<Rightarrow> Requirement \<Rightarrow> (error + bool) \<times> Requirement" where
  "is_outdated L r =
     (case version L r of
        (Inl e, r1) \<Rightarrow> (Inl e, r1)
      | (Inr v, r1) \<Rightarrow>
          (case parse_version_value L v of
             Inl e \<Rightarrow> (Inl e, r1)
           | Inr kv \<Rightarrow>
               (case latest_version_within_specs L r1 of
                  (Inl e, r2) \<Rightarrow> (Inl e, r2)
                | (Inr w, r2) \<Rightarrow>
                    (case parse_version_value L w of
                       Inl e \<Rightarrow> (Inl e, r2)
                     | Inr kw \<Rightarrow> (Inr (kv < kw), r2)))))"

definition needs_update ::
  "('ss, 'k::linorder) library \<Rightarrow> Requirement \<Rightarrow> (error + bool) \<times> Requirement" where
  "needs_update L r = (if is_pinned r \<or> is_ranged r then is_outdated L r else (Inr True, r))"

text \<open>
  \<^verbatim>\<open>update_content\<close>. \<open>new_line\<close> is the local of that name: the name, \<^verbatim>\<open>==\<close> and the
  formatted version, and, when the line has a \<^verbatim>\<open>#\<close>, a space, a \<^verbatim>\<open>#\<close> and the text of the
  line behind its first \<^verbatim>\<open>#\<close>.
\<close>

definition new_line :: "Requirement \<Rightarrow> string option \<Rightarrow> string" where
  "new_line r v =
     (let nl = name r @ ''=='' @ format_value v
      in if str_in ''#'' (line r) then nl @ '' #'' @ join ''#'' (drop 1 (split (line r) ''#'')) else nl)"

definition update_content ::
  "('ss, 'k::linorder) library \<Rightarrow> Requirement \<Rightarrow> string \<Rightarrow> (error + string) \<times> Requirement" where
  "update_content L r content =
     (case latest_version_within_specs L r of
        (Inl e, r1) \<Rightarrow> (Inl e, r1)
      | (Inr v, r1) \<Rightarrow> (re_sub_line L (line r1) (new_line r1 v) content, r1))"

text \<open>
  The class method \<^verbatim>\<open>Requirement.parse(s, lineno, index_server)\<close>. The unpacking
  \<^verbatim>\<open>parsed, = parse_requirements(...)\<close> raises \<^verbatim>\<open>ValueError\<close> unless exactly one declaration
  is read.
\<close>

definition Requirement_parse ::
  "('ss, 'k) library \<Rightarrow> string \<Rightarrow> nat \<Rightarrow> string option \<Rightarrow> error + Requirement" where
  "Requirement_parse L s num idx =
     (case parse_requirements L
             (if str_in [TAB, CHR ''#''] s then replace s [TAB, CHR ''#''] [TAB, CHR '' '', CHR ''#'']
              else s) of
        Some [p] \<Rightarrow>
          Inr (Requirement_init (project_name p) (parsed_specs p) (parsed_hashCmp p) s num idx)
      | _ \<Rightarrow> Inl ValueError)"

section \<open>RequirementFile\<close>

text \<open>
  The attributes set by \<^verbatim>\<open>RequirementFile.__init__\<close>; the private \<^verbatim>\<open>_requirements\<close>,
  \<^verbatim>\<open>_other_files\<close> and \<^verbatim>\<open>_is_valid\<close> start as \<^verbatim>\<open>None\<close>. The field \<open>parse_passes\<close> is not in
  the source: it counts the runs of \<^verbatim>\<open>_parse\<close> on the object, so that a statement can say
  whether an access parsed.
\<close>

record RequirementFile =
  path :: string
  content :: string
  sha :: "string option"
  p_requirements :: "Requirement list option"
  p_other_files :: "string list option"
  p_is_valid :: "bool option"
  parse_passes :: nat

definition RequirementFile_init :: "string \<Rightarrow> string \<Rightarrow> string option \<Rightarrow> RequirementFile" where
  "RequirementFile_init pth cnt sh =
     \<lparr> path = pth, content = cnt, sha = sh, p_requirements = None, p_other_files = None,
       p_is_valid = None, parse_passes = 0 \<rparr>"

text \<open>
  \<^verbatim>\<open>parse_index_server\<close>: index 1 of the split at spaces may be missing; the
  \<^verbatim>\<open>IndexError\<close> is caught and \<^verbatim>\<open>None\<close> returned.
\<close>

definition parse_index_server :: "string \<Rightarrow> string option" where
  "parse_index_server ln =
     (let ln = hd (split ln ''#'')
      in case split ln '' '' of
           _ # u # _ \<Rightarrow> (let url = strip u in Some (if endswith url ''/'' then url else url @ ''/''))
         | _ \<Rightarrow> None)"

definition resolve_file :: "string \<Rightarrow> string \<Rightarrow> string" where
  "resolve_file file_path ln =
     (let ln = replace (replace ln ''-r '' []) ''--requirement '' [];
          parts = split file_path ''/'';
          ln = (if str_in '' #'' ln then strip (hd (split ln ''#'')) else ln)
      in if length parts = 1 then ln else join ''/'' (butlast parts) @ ''/'' @ ln)"

text \<open>
  The body of the loop of \<^verbatim>\<open>_parse\<close> for the line \<open>raw\<close> at index \<open>num\<close>, on the locals
  \<^verbatim>\<open>index_server\<close>, \<^verbatim>\<open>self._requirements\<close> and \<^verbatim>\<open>self._other_files\<close>. \<open>None\<close> stands for the
  \<^verbatim>\<open>return\<close> of the ignore-file branch; otherwise the locals are handed to the next
  round. A \<^verbatim>\<open>ValueError\<close> of \<^verbatim>\<open>parse\<close> is caught and the line dropped, and a requirement
  whose package is \<^verbatim>\<open>None\<close> is dropped as well.
\<close>

definition parse_line ::
  "('ss, 'k) library \<Rightarrow> string \<Rightarrow> nat \<Rightarrow> string \<Rightarrow> string option \<times> Requirement list \<times> string list
     \<Rightarrow> (string option \<times> Requirement list \<times> string list) option" where
  "parse_line L pth num raw st =
     (case st of (idx, reqs, others) \<Rightarrow>
      (let ln = strip raw in
       if ln = [] then Some st
       else if str_in ''pyup: ignore file'' ln \<and> num \<in> set [0, 1] then None
       else if startswith ln ''#'' then Some st
       else if startswith ln ''-i'' \<or> startswith ln ''--index-url''
               \<or> startswith ln ''--extra-index-url''
       then Some (parse_index_server ln, reqs, others)
       else if startswith ln ''-r'' \<or> startswith ln ''--requirement''
       then Some (idx, reqs, others @ [resolve_file pth ln])
       else if startswith ln ''-f'' \<or> startswith ln ''--find-links''
               \<or> startswith ln ''--no-index'' \<or> startswith ln ''--allow-external''
               \<or> startswith ln ''--allow-unverified'' \<or> startswith ln ''-Z''
               \<or> startswith ln ''--always-unzip''
       then Some st
       else if str_in ''pyup: ignore'' ln then Some st
       else (case Requirement_parse L ln (num + 1) idx of
               Inl e \<Rightarrow> Some st
             | Inr req \<Rightarrow>
                 (case package L req of
                    (None, req1) \<Rightarrow> Some st
                  | (Some p, req1) \<Rightarrow> Some (idx, reqs @ [req1], others)))))"

text \<open>
  The loop over the numbered lines. It ends either at the \<^verbatim>\<open>return\<close> or when the lines
  are used up; the lists are handed back as they are at that moment.
\<close>

datatype loop_end = Returned | Exhausted

fun parse_loop ::
  "('ss, 'k) library \<Rightarrow> string \<Rightarrow> (nat \<times> string) list
     \<Rightarrow> string option \<times> Requirement list \<times> string list
     \<Rightarrow> loop_end \<times> Requirement list \<times> string list" where
  "parse_loop L pth [] st = (Exhausted, snd st)"
| "parse_loop L pth ((num, raw) # rest) st =
     (case parse_line L pth num raw st of
        None \<Rightarrow> (Returned, snd st)
      | Some st1 \<Rightarrow> parse_loop L pth rest st1)"

text \<open>
  \<^verbatim>\<open>_parse\<close>: both lists are reset, the loop runs, and \<^verbatim>\<open>_is_valid\<close> is set to \<^verbatim>\<open>False\<close> at
  the \<^verbatim>\<open>return\<close>, or else to whether a requirement or another file was found.
\<close>

definition RequirementFile_parse :: "('ss, 'k) library \<Rightarrow> RequirementFile \<Rightarrow> RequirementFile" where
  "RequirementFile_parse L f =
     (case parse_loop L (path f) (enumerate_from 0 (splitlines (content f))) (None, [], []) of
        (Returned, reqs, others) \<Rightarrow>
          f\<lparr> p_requirements := Some reqs, p_other_files := Some others, p_is_valid := Some False,
            parse_passes := parse_passes f + 1 \<rparr>
      | (Exhausted, reqs, others) \<Rightarrow>
          f\<lparr> p_requirements := Some reqs, p_other_files := Some others,
            p_is_valid := Some (length reqs > 0 \<or> length others > 0),
            parse_passes := parse_passes f + 1 \<rparr>)"

text \<open>
  \<^verbatim>\<open>not v\<close> for a value that is \<^verbatim>\<open>None\<close> or a list: true for \<^verbatim>\<open>None\<close> and for the empty
  list.
\<close>

fun py_not :: "'a list option \<Rightarrow> bool" where
  "py_not None = True"
| "py_not (Some []) = True"
| "py_not (Some (x # xs)) = False"

text \<open>
  The three properties. \<^verbatim>\<open>is_valid\<close> parses when \<^verbatim>\<open>_is_valid is None\<close>; \<^verbatim>\<open>requirements\<close>
  and \<^verbatim>\<open>other_files\<close> parse when \<^verbatim>\<open>not self._requirements\<close> and \<^verbatim>\<open>not self._other_files\<close>.
  Each returns the attribute and the object as the access leaves it.
\<close>

definition is_valid :: "('ss, 'k) library \<Rightarrow> RequirementFile \<Rightarrow> bool option \<times> RequirementFile" where
  "is_valid L f =
     (let f1 = (if p_is_valid f = None then RequirementFile_parse L f else f)
      in (p_is_valid f1, f1))"

definition requirements ::
  "('ss, 'k) library \<Rightarrow> RequirementFile \<Rightarrow> Requirement list option \<times> RequirementFile" where
  "requirements L f =
     (let f1 = (if py_not (p_requirements f) then RequirementFile_parse L f else f)
      in (p_requirements f1, f1))"

definition other_files ::
  "('ss, 'k) library \<Rightarrow> RequirementFile \<Rightarrow> string list option \<times> RequirementFile" where
  "other_files L f =
     (let f1 = (if py_not (p_other_files f) then RequirementFile_parse L f else f)
      in (p_other_files f1, f1))"

section \<open>The lines of a content\<close>

text \<open>
  For stating what \<open>update_content\<close> does to a content: \<open>lines_nl\<close> cuts a text at every
  newline (so that joining the pieces with newlines gives the text back), and
  \<open>rewrite_line\<close> is the rewriting of one such piece: a piece equal to the literal becomes
  the new text, a piece equal to the literal followed by a carriage return becomes the new
  text followed by the carriage return, and any other piece stays.
\<close>

fun lines_nl :: "string \<Rightarrow> string list" where
  "lines_nl [] = [[]]"
| "lines_nl (c # cs) =
     (if c = LF then [] # lines_nl cs
      else (case lines_nl cs of [] \<Rightarrow> [[c]] | l # ls \<Rightarrow> (c # l) # ls))"

definition rewrite_line :: "string \<Rightarrow> string \<Rightarrow> string \<Rightarrow> string" where
  "rewrite_line lit new seg =
     (if seg = lit then new else if seg = lit @ [CR] then new @ [CR] else seg)"

section \<open>Notions for the statements about a file\<close>

text \<open>
  A file object is consistent when \<^verbatim>\<open>_is_valid\<close> is set or none of the three private
  attributes is: the states a file goes through from its construction.
\<close>

definition consistent :: "RequirementFile \<Rightarrow> bool" where
  "consistent f = ((p_requirements f = None \<and> p_other_files f = None) \<or> p_is_valid f \<noteq> None)"

text \<open>
  A stripped line is an index directive when it begins with one of the three flags. The
  index server in effect behind some lines is the answer of \<open>parse_index_server\<close> for
  the last directive among them, or the one in effect before them.
\<close>

definition is_index_directive :: "string \<Rightarrow> bool" where
  "is_index_directive ln =
     (startswith ln ''-i'' \<or> startswith ln ''--index-url'' \<or> startswith ln ''--extra-index-url'')"

fun index_in_effect :: "string option \<Rightarrow> string list \<Rightarrow> string option" where
  "index_in_effect idx [] = idx"
| "index_in_effect idx (raw # ls) =
     index_in_effect
       (if is_index_directive (strip raw) then parse_index_server (strip raw) else idx) ls"

text \<open>
  The index server of a directive line in the spec's words: ``the first
  whitespace-delimited token after the flag, with any trailing comment stripped'',
  ``normalize[d] to end with a trailing slash''. \<open>words_from\<close> cuts a text into its maximal
  runs of characters that are not whitespace.
\<close>

fun words_from :: "string \<Rightarrow> string \<Rightarrow> string list" where
  "words_from cur [] = (if cur = [] then [] else [cur])"
| "words_from cur (c # cs) =
     (if is_space c then (if cur = [] then words_from [] cs else cur # words_from [] cs)
      else words_from (cur @ [c]) cs)"

definition spec_index_server :: "string \<Rightarrow> string option" where
  "spec_index_server ln =
     (case words_from [] (takeWhile (\<lambda>c. c \<noteq> CHR ''#'') ln) of
        flag # url # _ \<Rightarrow> Some (if endswith url ''/'' then url else url @ ''/'')
      | _ \<Rightarrow> None)"

section \<open>An example library\<close>

text \<open>
  An instance of the library record for evaluating the model on concrete inputs. It
  covers final releases written as dotted numbers (\<^verbatim>\<open>1.4\<close>, \<^verbatim>\<open>1.2.0\<close>), clauses with the
  operators \<^verbatim>\<open>==\<close>, \<^verbatim>\<open>!=\<close>, \<^verbatim>\<open><=\<close>, \<^verbatim>\<open>>=\<close>, \<^verbatim>\<open><\<close>, \<^verbatim>\<open>>\<close>, and one-line declarations of the form
  name, clauses, comment. A parsed release is its list of numbers without trailing zeros,
  compared from the left. No release is a pre-release. Every package of the example
  catalogue has the same known versions \<open>vs\<close>, and its latest version is the highest of
  them. Templates with an escape are rejected.
\<close>

definition ex_number :: "string \<Rightarrow> nat option" where
  "ex_number s =
     (if s \<noteq> [] \<and> list_all (\<lambda>c. 48 \<le> (of_char c :: nat) \<and> (of_char c :: nat) \<le> 57) s
      then Some (foldl (\<lambda>n c. 10 * n + (of_char c - 48)) 0 s) else None)"

fun ex_all :: "'a option list \<Rightarrow> 'a list option" where
  "ex_all [] = Some []"
| "ex_all (None # xs) = None"
| "ex_all (Some x # xs) = (case ex_all xs of None \<Rightarrow> None | Some ys \<Rightarrow> Some (x # ys))"

definition ex_release :: "string \<Rightarrow> nat list option" where
  "ex_release s = ex_all (map ex_number (split s ''.''))"

definition ex_parse_version :: "string \<Rightarrow> nat list" where
  "ex_parse_version s =
     (case ex_release s of None \<Rightarrow> [] | Some ns \<Rightarrow> rev (dropWhile (\<lambda>n. n = 0) (rev ns)))"

definition ex_clause :: "string \<Rightarrow> (string \<times> string) option" where
  "ex_clause s =
     (if take 2 s \<in> set [''=='', ''!='', ''<='', ''>=''] \<and> ex_release (drop 2 s) \<noteq> None
      then Some (take 2 s, drop 2 s)
      else if take 1 s \<in> set [''<'', ''>''] \<and> ex_release (drop 1 s) \<noteq> None
      then Some (take 1 s, drop 1 s)
      else None)"

definition ex_clauses :: "string \<Rightarrow> (string \<times> string) list option" where
  "ex_clauses s = (if s = [] then Some [] else ex_all (map ex_clause (split s '','')))"

definition ex_SpecifierSet :: "string \<Rightarrow> error + (string \<times> string) list" where
  "ex_SpecifierSet s = (case ex_clauses s of None \<Rightarrow> Inl InvalidSpecifier | Some cs \<Rightarrow> Inr cs)"

definition ex_holds :: "string \<Rightarrow> string \<times> string \<Rightarrow> bool" where
  "ex_holds v c =
     (let a = ex_parse_version v; b = ex_parse_version (snd c) in
      if fst c = ''=='' then a = b
      else if fst c = ''!='' then a \<noteq> b
      else if fst c = ''<='' then a \<le> b
      else if fst c = ''>='' then b \<le> a
      else if fst c = ''<'' then a < b
      else b < a)"

definition ex_contains :: "(string \<times> string) list \<Rightarrow> string \<Rightarrow> bool option \<Rightarrow> bool" where
  "ex_contains cs v pre = (ex_release v \<noteq> None \<and> list_all (ex_holds v) cs)"

definition ex_name_char :: "char \<Rightarrow> bool" where
  "ex_name_char c =
     (let n = (of_char c :: nat) in
      (48 \<le> n \<and> n \<le> 57) \<or> (65 \<le> n \<and> n \<le> 90) \<or> (97 \<le> n \<and> n \<le> 122)
        \<or> c \<in> set ''-_.'')"

definition ex_parse_requirements :: "string \<Rightarrow> parsed list option" where
  "ex_parse_requirements s =
     (let t = strip s;
          d = (if str_in '' #'' t then hd (split t '' #'') else t)
      in if t = [] \<or> startswith t ''#'' then Some []
         else if takeWhile ex_name_char d = [] then None
         else (case ex_clauses (filter (\<lambda>c. \<not> is_space c) (dropWhile ex_name_char d)) of
                 None \<Rightarrow> None
               | Some cs \<Rightarrow>
                   Some [\<lparr> project_name = takeWhile ex_name_char d, parsed_specs = cs \<rparr>]))"

definition ex_package :: "string list \<Rightarrow> Package" where
  "ex_package vs =
     \<lparr> versions = vs,
       package_latest_version =
         (\<lambda>pre. case sorted_reverse ex_parse_version vs of [] \<Rightarrow> None | v # _ \<Rightarrow> Some v) \<rparr>"

definition ex_library :: "string list \<Rightarrow> ((string \<times> string) list, nat list) library" where
  "ex_library vs =
     \<lparr> SpecifierSet = ex_SpecifierSet,
       spec_contains = ex_contains,
       parse_version = ex_parse_version,
       is_prerelease = (\<lambda>k. False),
       parse_requirements = ex_parse_requirements,
       fetch_package = (\<lambda>nm idx. Some (ex_package vs)),
       template_escape = (\<lambda>matched rest. Inl ReError) \<rparr>"

section \<open>Evaluating the example library\<close>

lemmas ex_defs = ex_library_def ex_SpecifierSet_def ex_clauses_def ex_clause_def ex_release_def
  ex_number_def ex_contains_def ex_holds_def ex_parse_version_def split_def startswith_def
  ex_parse_requirements_def ex_name_char_def ex_package_def

section \<open>Fields of a split\<close>

text \<open>
  When the separator occurs in the text, the split has at least two fields: the index 1
  that \<open>filter_rq\<close> reads exists.
\<close>

lemma split_from_not_Nil: "split_from sep cur s \<noteq> []"
  by (induction sep cur s rule: split_from.induct) auto

lemma split_from_two_fields:
  "sep \<noteq> [] \<Longrightarrow> str_in sep s \<Longrightarrow> 2 \<le> length (split_from sep cur s)"
proof (induction sep cur s rule: split_from.induct)
  case (1 sep cur)
  then show ?case by simp
next
  case (2 sep cur c cs)
  show ?case
  proof (cases "startswith (c # cs) sep")
    case True
    have "split_from sep [] (drop (length sep) (c # cs)) \<noteq> []" by (rule split_from_not_Nil)
    then have "1 \<le> length (split_from sep [] (drop (length sep) (c # cs)))"
      by (simp add: Suc_leI)
    then show ?thesis using True 2(3) by simp
  next
    case False
    then have "str_in sep cs" using 2(4) by simp
    then show ?thesis using False 2(2,3) by simp
  qed
qed

lemma split_two_fields: "sep \<noteq> [] \<Longrightarrow> str_in sep s \<Longrightarrow> 2 \<le> length (split s sep)"
  by (simp add: split_def split_from_two_fields)

section \<open>Version Resolver: the highest version within the specs\<close>

lemma set_sorted_reverse: "set (sorted_reverse f xs) = set xs"
  by (simp add: sorted_reverse_def)

lemma sorted_reverse_Nil_iff: "sorted_reverse f xs = [] \<longleftrightarrow> xs = []"
  by (metis set_sorted_reverse set_empty)

lemma sorted_last_max:
  fixes f :: "'a \<Rightarrow> 'k::linorder"
  assumes "sorted (map f ys)" and "y \<in> set ys"
  shows "f y \<le> f (last ys)"
  using assms
proof (induction ys)
  case Nil
  then show ?case by simp
next
  case (Cons a ys)
  then show ?case by (cases "ys = []") auto
qed

lemma hd_sorted_reverse_max:
  fixes f :: "'a \<Rightarrow> 'k::linorder"
  assumes "x \<in> set xs"
  shows "f x \<le> f (hd (sorted_reverse f xs))"
proof -
  let ?ys = "sort_key f (rev xs)"
  have ne: "?ys \<noteq> []" using assms by (metis empty_iff set_empty set_rev set_sort)
  have "x \<in> set ?ys" using assms by simp
  then have "f x \<le> f (last ?ys)" by (rule sorted_last_max [OF sorted_sort_key])
  then show ?thesis using ne by (simp add: sorted_reverse_def hd_rev)
qed

lemma last_filter_holds: "ys \<noteq> [] \<Longrightarrow> P (last ys) \<Longrightarrow> last (filter P ys) = last ys"
  by (induction ys rule: rev_induct) simp_all

lemma hd_sorted_reverse_first:
  fixes f :: "'a \<Rightarrow> 'k::linorder"
  assumes "xs \<noteq> []"
  shows "hd (sorted_reverse f xs) = hd (filter (\<lambda>x. f x = f (hd (sorted_reverse f xs))) xs)"
proof -
  let ?ys = "sort_key f (rev xs)"
  let ?m = "f (hd (sorted_reverse f xs))"
  have ne: "?ys \<noteq> []" using assms by (metis length_0_conv length_rev length_sort)
  have hd_last: "hd (sorted_reverse f xs) = last ?ys" using ne by (simp add: sorted_reverse_def hd_rev)
  have "last ?ys = last (filter (\<lambda>x. f x = ?m) ?ys)"
    using ne hd_last by (simp add: last_filter_holds)
  also have "\<dots> = last (filter (\<lambda>x. f x = ?m) (rev xs))" by (simp only: sort_key_stable)
  also have "\<dots> = last (rev (filter (\<lambda>x. f x = ?m) xs))" by (simp add: rev_filter)
  also have "\<dots> = hd (filter (\<lambda>x. f x = ?m) xs)"
  proof -
    have "hd (sorted_reverse f xs) \<in> set xs"
      using assms by (metis hd_in_set set_sorted_reverse sorted_reverse_Nil_iff)
    then have "filter (\<lambda>x. f x = ?m) xs \<noteq> []"
      by (auto simp: filter_empty_conv)
    then show ?thesis by (simp add: last_rev)
  qed
  finally show ?thesis using hd_last by simp
qed


text \<open>
  Claim C1. Let the specifier set built from the specs be \<open>ss\<close>, and call a version
  satisfying when the set contains it under the given pre-release flag. If some
  candidate is satisfying, \<open>get_latest_version_within_specs\<close> returns a satisfying
  candidate whose parsed version is greatest among the satisfying ones, namely the first
  such candidate in the order given. Whatever version it returns is a satisfying
  candidate. It returns \<^verbatim>\<open>None\<close> exactly when no candidate is satisfying.
\<close>

theorem get_latest_version_within_specs_max:
  fixes L :: "('ss, 'k::linorder) library"
  assumes "SpecifierSet L (join '','' (map (\<lambda>(x, y). x @ y) sp)) = Inr ss"
  shows "((\<exists>v \<in> set vs. spec_contains L ss v pre) \<longrightarrow>
            (\<exists>r. get_latest_version_within_specs L sp vs pre = Inr (Some r)
                 \<and> r \<in> set vs \<and> spec_contains L ss r pre
                 \<and> (\<forall>v \<in> set vs. spec_contains L ss v pre \<longrightarrow> parse_version L v \<le> parse_version L r)
                 \<and> r = hd (filter (\<lambda>v. spec_contains L ss v pre \<and> parse_version L v = parse_version L r) vs)))
       \<and> (\<forall>r. get_latest_version_within_specs L sp vs pre = Inr (Some r)
                 \<longrightarrow> r \<in> set vs \<and> spec_contains L ss r pre)
       \<and> (get_latest_version_within_specs L sp vs pre = Inr None
             \<longleftrightarrow> \<not> (\<exists>v \<in> set vs. spec_contains L ss v pre))"
proof -
  let ?sat = "\<lambda>v. spec_contains L ss v pre"
  let ?cs = "filter ?sat vs"
  let ?sorted = "sorted_reverse (parse_version L) ?cs"
  have res: "get_latest_version_within_specs L sp vs pre =
               (if ?cs = [] then Inr None else Inr (Some (hd ?sorted)))"
    using assms
    by (simp add: get_latest_version_within_specs_def Let_def sorted_reverse_Nil_iff hd_conv_nth)
  have empty: "?cs = [] \<longleftrightarrow> \<not> (\<exists>v \<in> set vs. ?sat v)"
    by (simp add: filter_empty_conv)
  have mem: "hd ?sorted \<in> set ?cs" if "?cs \<noteq> []"
    using that by (metis hd_in_set set_sorted_reverse sorted_reverse_Nil_iff)
  have mx: "parse_version L v \<le> parse_version L (hd ?sorted)" if "v \<in> set vs" "?sat v" for v
    using that by (intro hd_sorted_reverse_max) simp
  have first: "hd ?sorted = hd (filter (\<lambda>v. ?sat v \<and> parse_version L v = parse_version L (hd ?sorted)) vs)"
    if "?cs \<noteq> []"
    using hd_sorted_reverse_first [OF that, of "parse_version L"] by (simp add: conj_commute)
  show ?thesis
    using res empty mem mx first by auto
qed

theorem get_latest_version_within_specs_max_witness:
  "SpecifierSet (ex_library []) (join '','' (map (\<lambda>(x, y). x @ y) [(''>='', ''1.0''), (''<'', ''2.0'')]))
     = Inr [(''>='', ''1.0''), (''<'', ''2.0'')]
   \<and> spec_contains (ex_library []) [(''>='', ''1.0''), (''<'', ''2.0'')] ''1.5'' None
   \<and> (\<exists>r. get_latest_version_within_specs (ex_library []) [(''>='', ''1.0''), (''<'', ''2.0'')]
              [''0.9'', ''1.5'', ''1.10'', ''2.0'', ''1.10.0''] None = Inr (Some r)
          \<and> r \<in> set [''0.9'', ''1.5'', ''1.10'', ''2.0'', ''1.10.0'']
          \<and> spec_contains (ex_library []) [(''>='', ''1.0''), (''<'', ''2.0'')] r None)"
proof -
  have h: "SpecifierSet (ex_library [])
             (join '','' (map (\<lambda>(x, y). x @ y) [(''>='', ''1.0''), (''<'', ''2.0'')]))
           = Inr [(''>='', ''1.0''), (''<'', ''2.0'')]"
    by (simp add: ex_defs)
  have s: "spec_contains (ex_library []) [(''>='', ''1.0''), (''<'', ''2.0'')] ''1.5'' None"
    by (simp add: ex_defs)
  have "\<exists>v \<in> set [''0.9'', ''1.5'', ''1.10'', ''2.0'', ''1.10.0''].
          spec_contains (ex_library []) [(''>='', ''1.0''), (''<'', ''2.0'')] v None"
    using s by simp
  with get_latest_version_within_specs_max [OF h,
      of "[''0.9'', ''1.5'', ''1.10'', ''2.0'', ''1.10.0'']" None] h s
  show ?thesis by blast
qed

section \<open>Requirements of a package without known versions\<close>

lemma get_latest_no_versions:
  "get_latest_version_within_specs L sp [] pre = Inr v \<Longrightarrow> v = None"
  by (auto simp: get_latest_version_within_specs_def sorted_reverse_def split: sum.splits)

lemma package_state:
  "snd (package L r) = r\<lparr> p_package := fst (package L r), p_fetched_package := True \<rparr>"
  by (cases "p_fetched_package r") (simp_all add: package_def Let_def)

lemma package_again:
  "fst (package L (r\<lparr> p_package := q, p_fetched_package := True \<rparr>)) = q"
  by (simp add: package_def)

lemma package_specs_update:
  "fst (package L (r\<lparr> specs := s \<rparr>)) = fst (package L r)"
  by (simp add: package_def Let_def)

lemma version_package: "fst (package L (snd (version L r))) = fst (package L r)"
  by (simp add: version_def case_prod_beta Let_def package_state package_again
      package_specs_update split: option.splits)

lemma version_no_versions:
  assumes "fst (package L r) = Some p" and "versions p = []" and "\<not> is_pinned r"
  shows "fst (version L r) = Inr v \<Longrightarrow> v = None"
proof -
  have "fst (package L (case filter_rq L r of None \<Rightarrow> r | Some f \<Rightarrow> r\<lparr> specs := specs r @ f \<rparr>)) = Some p"
    using assms(1) by (simp add: package_specs_update split: option.splits)
  then show "fst (version L r) = Inr v \<Longrightarrow> v = None"
    using assms(2,3)
    by (simp add: version_def case_prod_beta Let_def split: option.splits)
       (metis get_latest_no_versions)+
qed

lemma lvws_no_versions:
  assumes "fst (package L r) = Some p" and "versions p = []"
    and "\<forall>b. package_latest_version p b = None"
  shows "fst (latest_version_within_specs L r) = Inr v \<Longrightarrow> v = None"
  using assms
  by (simp add: latest_version_within_specs_def latest_version_def case_prod_beta
      split: option.splits)
     (metis get_latest_no_versions)

text \<open>
  Claim C2, as the code has it. For a requirement whose package has no known versions
  and no latest version, \<open>is_outdated\<close> never answers that the requirement is outdated,
  because it answers nothing: the comparison parses \<^verbatim>\<open>None\<close> as a version, which raises
  (a \<^verbatim>\<open>TypeError\<close>, unless building the specifier set has raised before). \<open>needs_update\<close>
  of a pinned or ranged requirement raises the same error.
\<close>

theorem is_outdated_no_versions:
  fixes L :: "('ss, 'k::linorder) library"
  assumes "fst (package L r) = Some p" and "versions p = []"
    and "\<forall>b. package_latest_version p b = None"
  shows "(\<exists>e. fst (is_outdated L r) = Inl e)
       \<and> (is_pinned r \<or> is_ranged r \<longrightarrow> (\<exists>e. fst (needs_update L r) = Inl e))"
proof -
  have p1: "fst (package L (snd (version L r))) = Some p"
    using assms(1) by (simp add: version_package)
  have w: "fst (latest_version_within_specs L (snd (version L r))) = Inr w \<Longrightarrow> w = None" for w
    by (rule lvws_no_versions [OF p1 assms(2,3)])
  have "\<exists>e. fst (is_outdated L r) = Inl e"
  proof (cases "is_pinned r")
    case True
    then have "fst (version L r) = Inr (Some (snd (specs r ! 0)))"
      by (simp add: version_def)
    then show ?thesis using w
      by (auto simp: is_outdated_def case_prod_beta parse_version_value_def split: sum.splits)
  next
    case False
    have "fst (version L r) = Inr v \<Longrightarrow> v = None" for v
      by (rule version_no_versions [OF assms(1,2) False])
    then show ?thesis
      by (auto simp: is_outdated_def case_prod_beta parse_version_value_def split: sum.splits)
  qed
  then show ?thesis by (simp add: needs_update_def)
qed

theorem is_outdated_no_versions_witness:
  "fst (package (ex_library [])
          (Requirement_init ''package'' [(''=='', ''1.0.0'')] (''package'', [(''=='', ''1.0.0'')])
              ''package==1.0.0'' 1 None)) = Some (ex_package [])
   \<and> versions (ex_package []) = []
   \<and> (\<forall>b. package_latest_version (ex_package []) b = None)
   \<and> is_pinned (Requirement_init ''package'' [(''=='', ''1.0.0'')] (''package'', [(''=='', ''1.0.0'')])
              ''package==1.0.0'' 1 None)
   \<and> (\<exists>e. fst (is_outdated (ex_library [])
          (Requirement_init ''package'' [(''=='', ''1.0.0'')] (''package'', [(''=='', ''1.0.0'')])
              ''package==1.0.0'' 1 None)) = Inl e)
   \<and> (\<exists>e. fst (needs_update (ex_library [])
          (Requirement_init ''package'' [(''=='', ''1.0.0'')] (''package'', [(''=='', ''1.0.0'')])
              ''package==1.0.0'' 1 None)) = Inl e)"
proof -
  let ?r = "Requirement_init ''package'' [(''=='', ''1.0.0'')] (''package'', [(''=='', ''1.0.0'')])
              ''package==1.0.0'' 1 None"
  have h1: "fst (package (ex_library []) ?r) = Some (ex_package [])"
    by (simp add: package_def Requirement_init_def ex_library_def Let_def)
  have h2: "versions (ex_package []) = []"
    by (simp add: ex_package_def)
  have h3: "\<forall>b. package_latest_version (ex_package []) b = None"
    by (simp add: ex_package_def sorted_reverse_def)
  have h4: "is_pinned ?r"
    by (simp add: is_pinned_def Requirement_init_def)
  from is_outdated_no_versions [OF h1 h2 h3] h1 h2 h3 h4 show ?thesis
    by blast
qed

text \<open>
  The claim as stated, that neither accessor raises, fails for the requirement parsed
  from \<^verbatim>\<open>package==1.0.0\<close> against a catalogue without versions: the latest version within
  the specs is \<^verbatim>\<open>None\<close>, and both accessors raise \<^verbatim>\<open>TypeError\<close>.
\<close>

theorem is_outdated_no_versions_raises:
  "Requirement_parse (ex_library []) ''package==1.0.0'' 1 None
     = Inr (Requirement_init ''package'' [(''=='', ''1.0.0'')] (''package'', [(''=='', ''1.0.0'')])
              ''package==1.0.0'' 1 None)
   \<and> map_option versions (fst (package (ex_library [])
        (Requirement_init ''package'' [(''=='', ''1.0.0'')] (''package'', [(''=='', ''1.0.0'')])
              ''package==1.0.0'' 1 None))) = Some []
   \<and> fst (latest_version_within_specs (ex_library [])
        (Requirement_init ''package'' [(''=='', ''1.0.0'')] (''package'', [(''=='', ''1.0.0'')])
              ''package==1.0.0'' 1 None)) = Inr None
   \<and> fst (is_outdated (ex_library [])
        (Requirement_init ''package'' [(''=='', ''1.0.0'')] (''package'', [(''=='', ''1.0.0'')])
              ''package==1.0.0'' 1 None)) = Inl TypeError
   \<and> fst (needs_update (ex_library [])
        (Requirement_init ''package'' [(''=='', ''1.0.0'')] (''package'', [(''=='', ''1.0.0'')])
              ''package==1.0.0'' 1 None)) = Inl TypeError"
proof (intro conjI)
  have a: "parse_requirements (ex_library []) ''package==1.0.0''
             = Some [\<lparr> project_name = ''package'', parsed_specs = [(''=='', ''1.0.0'')] \<rparr>]"
    by code_simp
  have b: "\<not> str_in [TAB, CHR ''#''] ''package==1.0.0''" by code_simp
  have c: "lower ''package'' = ''package''" by code_simp
  show "Requirement_parse (ex_library []) ''package==1.0.0'' 1 None
     = Inr (Requirement_init ''package'' [(''=='', ''1.0.0'')] (''package'', [(''=='', ''1.0.0'')])
              ''package==1.0.0'' 1 None)"
    unfolding Requirement_parse_def using b by (simp add: a c parsed_hashCmp_def)
qed code_simp+

section \<open>The substitution, line by line\<close>

lemma lines_nl_not_Nil [simp]: "lines_nl s \<noteq> []"
  by (induction s) (auto split: list.splits)

lemma lines_nl_append_LF:
  "LF \<notin> set seg \<Longrightarrow> lines_nl (seg @ LF # rest) = seg # lines_nl rest"
  by (induction seg) auto

lemma lines_nl_no_LF: "LF \<notin> set seg \<Longrightarrow> lines_nl seg = [seg]"
  by (induction seg) auto

lemma join_lines_nl: "join [LF] (lines_nl s) = s"
proof (induction s)
  case Nil
  then show ?case by simp
next
  case (Cons c cs)
  obtain l ls where l: "lines_nl cs = l # ls" by (cases "lines_nl cs") auto
  then show ?case using Cons by (cases ls) auto
qed

lemma lookahead_line_end:
  assumes "LF \<notin> set d" and "rest = [] \<or> hd rest = LF"
  shows "lookahead (d @ rest) \<longleftrightarrow> d = [] \<or> d = [CR]"
proof (cases d)
  case Nil
  then show ?thesis using assms(2)
    by (cases rest) (auto simp: lookahead_def optional_def at_eol_def)
next
  case (Cons e d')
  then have e: "e \<noteq> LF" and d': "LF \<notin> set d'" using assms(1) by auto
  show ?thesis
  proof (cases d')
    case Nil
    then show ?thesis using Cons e assms(2)
      by (cases rest) (auto simp: lookahead_def optional_def at_eol_def)
  next
    case (Cons e' d'')
    then have "e' \<noteq> LF" using d' by auto
    then show ?thesis using \<open>d = e # d'\<close> Cons e
      by (auto simp: lookahead_def optional_def at_eol_def)
  qed
qed

lemma startswith_line:
  assumes "LF \<notin> set lit" and "LF \<notin> set seg" and "rest = [] \<or> hd rest = LF"
  shows "startswith (seg @ rest) lit \<longleftrightarrow> (\<exists>d. seg = lit @ d)"
  using assms(1,2)
proof (induction lit arbitrary: seg)
  case Nil
  then show ?case by (simp add: startswith_def)
next
  case (Cons a lit)
  then have a: "a \<noteq> LF" and lit: "LF \<notin> set lit" by auto
  show ?case
  proof (cases seg)
    case Nil
    then show ?thesis using a assms(3) by (cases rest) (auto simp: startswith_def)
  next
    case (Cons b seg')
    then have "LF \<notin> set seg'" using Cons.prems(2) by simp
    from Cons.IH [OF lit this] show ?thesis using Cons by (auto simp: startswith_def)
  qed
qed

lemma match_line:
  assumes "LF \<notin> set lit" and "LF \<notin> set seg" and "rest = [] \<or> hd rest = LF"
  shows "startswith (seg @ rest) lit \<and> lookahead (drop (length lit) (seg @ rest))
           \<longleftrightarrow> seg = lit \<or> seg = lit @ [CR]"
proof (cases "\<exists>d. seg = lit @ d")
  case True
  then obtain d where d: "seg = lit @ d" ..
  then have "LF \<notin> set d" using assms(2) by simp
  from lookahead_line_end [OF this assms(3)] show ?thesis
    using startswith_line [OF assms] d by auto
next
  case False
  then show ?thesis using startswith_line [OF assms] by auto
qed

lemma sub_scan_copy:
  "LF \<notin> set s \<Longrightarrow> sub_scan lit new False 0 (s @ t) = s @ sub_scan lit new False 0 t"
  by (induction s) auto

lemma sub_scan_skip:
  "sub_scan lit new b (length s) (s @ t)
     = sub_scan lit new (if s = [] then b else last s = LF) 0 t"
  by (induction s arbitrary: b) auto

lemma sub_scan_after_line:
  "sub_scan lit new False 0 (case rest of None \<Rightarrow> [] | Some r \<Rightarrow> LF # r)
     = (case rest of None \<Rightarrow> [] | Some r \<Rightarrow> LF # sub_scan lit new True 0 r)"
  by (cases rest) auto

lemma sub_scan_at:
  "sub_scan lit new True 0 (c # cs) =
     (if startswith (c # cs) lit \<and> lookahead (drop (length lit) (c # cs))
      then (if lit = [] then new @ c # sub_scan lit new (c = LF) 0 cs
            else new @ sub_scan lit new (c = LF) (length lit - 1) cs)
      else c # sub_scan lit new (c = LF) 0 cs)"
  by (subst sub_scan.simps(2)) (simp only: simp_thms less_irrefl if_False)

lemma sub_scan_line:
  assumes lit: "LF \<notin> set lit" and seg: "LF \<notin> set seg"
  shows "sub_scan lit new True 0 (seg @ (case rest of None \<Rightarrow> [] | Some r \<Rightarrow> LF # r))
           = rewrite_line lit new seg
               @ (case rest of None \<Rightarrow> [] | Some r \<Rightarrow> LF # sub_scan lit new True 0 r)"
proof -
  let ?tail = "case rest of None \<Rightarrow> [] | Some r \<Rightarrow> LF # r"
  let ?out = "case rest of None \<Rightarrow> [] | Some r \<Rightarrow> LF # sub_scan lit new True 0 r"
  have tail: "?tail = [] \<or> hd ?tail = LF" by (cases rest) auto
  have after: "sub_scan lit new False 0 ?tail = ?out" by (rule sub_scan_after_line)
  have m: "startswith (seg @ ?tail) lit \<and> lookahead (drop (length lit) (seg @ ?tail))
             \<longleftrightarrow> seg = lit \<or> seg = lit @ [CR]"
    by (rule match_line [OF lit seg tail])
  show ?thesis
  proof (cases "seg @ ?tail")
    case Nil
    then have "seg = []" and "?tail = []" by simp_all
    moreover have "?out = []" using \<open>?tail = []\<close> by (cases rest) simp_all
    moreover have "lookahead []" by (simp add: lookahead_def optional_def at_eol_def)
    ultimately show ?thesis by (auto simp: rewrite_line_def)
  next
    case (Cons c cs)
    have step: "sub_scan lit new True 0 (seg @ ?tail) =
       (if seg = lit \<or> seg = lit @ [CR]
        then (if lit = [] then new @ c # sub_scan lit new (c = LF) 0 cs
              else new @ sub_scan lit new (c = LF) (length lit - 1) cs)
        else c # sub_scan lit new (c = LF) 0 cs)"
    proof -
      have m': "startswith (c # cs) lit \<and> lookahead (drop (length lit) (c # cs))
                  \<longleftrightarrow> seg = lit \<or> seg = lit @ [CR]"
        using m Cons by metis
      have "sub_scan lit new True 0 (seg @ ?tail) = sub_scan lit new True 0 (c # cs)"
        using Cons by metis
      then show ?thesis by (simp only: sub_scan_at m')
    qed
    show ?thesis
    proof (cases "seg = lit \<or> seg = lit @ [CR]")
      case True
      then obtain d where d: "seg = lit @ d" "d = [] \<or> d = [CR]" by auto
      then have rw: "rewrite_line lit new seg = new @ d" by (auto simp: rewrite_line_def)
      have dcopy: "sub_scan lit new False 0 (d @ ?tail) = d @ ?out"
        using d(2) after by (auto simp: sub_scan_copy)
      show ?thesis
      proof (cases lit)
        case Nil
        then have "c # cs = d @ ?tail" using Cons d(1) by simp
        then have "c # sub_scan lit new (c = LF) 0 cs = d @ ?out"
          using d(2) after by (cases rest) auto
        then show ?thesis using step True Nil rw by simp
      next
        case (Cons a lit')
        then have a: "a \<noteq> LF" and l': "LF \<notin> set lit'" using lit by auto
        have b: "(if lit' = [] then a = LF else last lit' = LF) = False"
          using a l' by (cases "lit' = []") (auto dest: last_in_set)
        have cs: "c = a" "cs = lit' @ (d @ ?tail)"
          using \<open>seg @ ?tail = c # cs\<close> d(1) Cons by simp_all
        have "sub_scan lit new (c = LF) (length lit - 1) cs
                = sub_scan lit new (a = LF) (length lit') (lit' @ (d @ ?tail))"
          using cs Cons by simp
        also have "\<dots> = sub_scan lit new False 0 (d @ ?tail)"
          using b by (simp only: sub_scan_skip)
        finally show ?thesis using step True Cons rw dcopy by simp
      qed
    next
      case False
      then have rw: "rewrite_line lit new seg = seg" by (simp add: rewrite_line_def)
      have "c # sub_scan lit new (c = LF) 0 cs = seg @ ?out"
      proof (cases seg)
        case Nil
        then have "c # cs = ?tail" using Cons by simp
        then show ?thesis using Nil by (cases rest) auto
      next
        case (Cons e seg')
        then have e: "e \<noteq> LF" "LF \<notin> set seg'" using seg by auto
        have "c = e" "cs = seg' @ ?tail" using \<open>seg @ ?tail = c # cs\<close> Cons by simp_all
        then show ?thesis using e Cons after by (simp add: sub_scan_copy)
      qed
      then show ?thesis using step False rw by simp
    qed
  qed
qed

lemma content_line_split:
  "\<exists>seg rest. LF \<notin> set seg \<and> s = seg @ (case rest of None \<Rightarrow> [] | Some r \<Rightarrow> LF # r)"
proof (cases "dropWhile (\<lambda>c. c \<noteq> LF) s")
  case Nil
  then have "LF \<notin> set s" by (auto simp: dropWhile_eq_Nil_conv)
  then show ?thesis by (intro exI [of _ s] exI [of _ None]) simp
next
  case (Cons c r)
  then have "c = LF" using hd_dropWhile [of "\<lambda>c. c \<noteq> LF" s] by auto
  then have "s = takeWhile (\<lambda>c. c \<noteq> LF) s @ LF # r"
    using Cons takeWhile_dropWhile_id [of "\<lambda>c. c \<noteq> LF" s] by simp
  moreover have "LF \<notin> set (takeWhile (\<lambda>c. c \<noteq> LF) s)"
    by (auto dest: set_takeWhileD)
  ultimately show ?thesis
    by (intro exI [of _ "takeWhile (\<lambda>c. c \<noteq> LF) s"] exI [of _ "Some r"]) simp
qed

lemma join_LF_Cons: "ys \<noteq> [] \<Longrightarrow> join [LF] (x # ys) = x @ LF # join [LF] ys"
  by (cases ys) auto

lemma sub_scan_lines:
  assumes "LF \<notin> set lit"
  shows "sub_scan lit new True 0 s = join [LF] (map (rewrite_line lit new) (lines_nl s))"
proof (induction s rule: length_induct)
  case (1 s)
  obtain seg rest where seg: "LF \<notin> set seg"
    and s: "s = seg @ (case rest of None \<Rightarrow> [] | Some r \<Rightarrow> LF # r)"
    using content_line_split by blast
  show ?case
  proof (cases rest)
    case None
    then have "s = seg" using s by simp
    then show ?thesis
      using sub_scan_line [OF assms seg, of new None] seg by (simp add: lines_nl_no_LF)
  next
    case (Some r)
    then have "length r < length s" using s by simp
    then have ih: "sub_scan lit new True 0 r = join [LF] (map (rewrite_line lit new) (lines_nl r))"
      using 1 by blast
    show ?thesis
      using sub_scan_line [OF assms seg, of new "Some r"] s Some seg ih
      by (simp add: lines_nl_append_LF join_LF_Cons)
  qed
qed

section \<open>\<open>update_content\<close>\<close>

lemma expand_template_literal:
  "BACKSLASH \<notin> set t \<Longrightarrow> expand_template L m t = Inr t"
  by (induction t) auto

lemma expand_template_trailing_backslash:
  "BACKSLASH \<notin> set t \<Longrightarrow> expand_template L m (t @ [BACKSLASH]) = Inl ReError"
  by (induction t) auto

lemma latest_version_within_specs_state:
  "snd (latest_version_within_specs L r)
     = r\<lparr> p_package := fst (package L r), p_fetched_package := True \<rparr>"
  by (simp add: latest_version_within_specs_def latest_version_def case_prod_beta package_state
      split: option.splits)

lemma new_line_state:
  "new_line (r\<lparr> p_package := q, p_fetched_package := b \<rparr>) v = new_line r v"
  by (simp add: new_line_def Let_def)

lemma update_content_result:
  "fst (latest_version_within_specs L r) = Inr v \<Longrightarrow>
     fst (update_content L r s) = re_sub_line L (line r) (new_line r v) s"
  by (simp add: update_content_def case_prod_beta latest_version_within_specs_state new_line_state)

lemma update_content_lines:
  assumes "fst (latest_version_within_specs L r) = Inr v"
    and "LF \<notin> set (line r)" and "BACKSLASH \<notin> set (new_line r v)"
  shows "fst (update_content L r s)
           = Inr (join [LF] (map (rewrite_line (line r) (new_line r v)) (lines_nl s)))"
  using assms
  by (simp add: update_content_result re_sub_line_def expand_template_literal sub_scan_lines)

lemma map_rewrite_line_absent:
  "list_all (\<lambda>seg. seg \<noteq> lit \<and> seg \<noteq> lit @ [CR]) ls \<Longrightarrow> map (rewrite_line lit new) ls = ls"
  by (induction ls) (auto simp: rewrite_line_def)

lemma update_content_absent:
  assumes "fst (latest_version_within_specs L r) = Inr v"
    and "LF \<notin> set (line r)" and "BACKSLASH \<notin> set (new_line r v)"
    and "list_all (\<lambda>seg. seg \<noteq> line r \<and> seg \<noteq> line r @ [CR]) (lines_nl s)"
  shows "fst (update_content L r s) = Inr s"
  using update_content_lines [OF assms(1,2,3)] assms(4)
  by (simp add: map_rewrite_line_absent join_lines_nl)

lemma Requirement_parse_fields:
  "Requirement_parse L s n idx = Inr r \<Longrightarrow> line r = s \<and> lineno r = n \<and> index_server r = idx"
  by (auto simp: Requirement_parse_def Requirement_init_def split: option.splits list.splits)

lemma Requirement_parse_one:
  assumes "\<not> str_in [TAB, CHR ''#''] s" and "parse_requirements L s = Some [p]"
  shows "Requirement_parse L s n idx
           = Inr (Requirement_init (project_name p) (parsed_specs p) (parsed_hashCmp p) s n idx)"
  using assms by (simp add: Requirement_parse_def)

text \<open>
  Claim C3, as the code has it. For a requirement parsed from the line
  \<^verbatim>\<open>package==1.0.0  # comment\<close> with the name \<^verbatim>\<open>package\<close> whose latest version within the specs
  is \<^verbatim>\<open>1.2.0\<close>, \<open>update_content\<close> returns the content in which every line equal to the
  original line (with or without a carriage return behind it) reads
  \<^verbatim>\<open>package==1.2.0 # comment\<close>, with one space before the \<^verbatim>\<open>#\<close> and the text behind the
  \<^verbatim>\<open>#\<close> as it was, and every other line is the same as before.
\<close>

theorem update_content_comment_line:
  fixes L :: "('ss, 'k::linorder) library"
  assumes "Requirement_parse L ''package==1.0.0  # comment'' n idx = Inr r"
    and "name r = ''package''"
    and "fst (latest_version_within_specs L r) = Inr (Some ''1.2.0'')"
  shows "fst (update_content L r s)
           = Inr (join [LF] (map (rewrite_line ''package==1.0.0  # comment''
                                     ''package==1.2.0 # comment'') (lines_nl s)))"
proof -
  have ln: "line r = ''package==1.0.0  # comment''"
    using Requirement_parse_fields [OF assms(1)] by simp
  have a: "str_in ''#'' ''package==1.0.0  # comment''" by code_simp
  have b: "join ''#'' (drop 1 (split ''package==1.0.0  # comment'' ''#'')) = '' comment''"
    by code_simp
  have "new_line r (Some ''1.2.0'') = (''package'' @ ''=='' @ ''1.2.0'') @ '' #'' @ '' comment''"
    by (simp only: new_line_def Let_def ln assms(2) format_value_def a b if_True option.case)
  then have nl: "new_line r (Some ''1.2.0'') = ''package==1.2.0 # comment''"
    by simp
  have "LF \<notin> set (line r)" by (simp add: ln)
  moreover have "BACKSLASH \<notin> set (new_line r (Some ''1.2.0''))" by (simp add: nl)
  ultimately show ?thesis
    using update_content_lines [OF assms(3), of s] by (simp add: ln nl)
qed

theorem update_content_comment_line_witness:
  "Requirement_parse (ex_library [''1.0.0'', ''1.1'', ''1.2.0'']) ''package==1.0.0  # comment'' 2 None
     = Inr (Requirement_init ''package'' [(''=='', ''1.0.0'')] (''package'', [(''=='', ''1.0.0'')])
              ''package==1.0.0  # comment'' 2 None)
   \<and> fst (latest_version_within_specs (ex_library [''1.0.0'', ''1.1'', ''1.2.0''])
        (Requirement_init ''package'' [(''=='', ''1.0.0'')] (''package'', [(''=='', ''1.0.0'')])
              ''package==1.0.0  # comment'' 2 None)) = Inr (Some ''1.2.0'')
   \<and> fst (update_content (ex_library [''1.0.0'', ''1.1'', ''1.2.0''])
        (Requirement_init ''package'' [(''=='', ''1.0.0'')] (''package'', [(''=='', ''1.0.0'')])
              ''package==1.0.0  # comment'' 2 None)
        (''flask==0.1'' @ [LF] @ ''package==1.0.0  # comment'' @ [CR, LF] @ ''django''))
     = Inr (''flask==0.1'' @ [LF] @ ''package==1.2.0 # comment'' @ [CR, LF] @ ''django'')"
proof -
  let ?L = "ex_library [''1.0.0'', ''1.1'', ''1.2.0'']"
  let ?r = "Requirement_init ''package'' [(''=='', ''1.0.0'')] (''package'', [(''=='', ''1.0.0'')])
              ''package==1.0.0  # comment'' 2 None"
  have a: "parse_requirements ?L ''package==1.0.0  # comment''
             = Some [\<lparr> project_name = ''package'', parsed_specs = [(''=='', ''1.0.0'')] \<rparr>]"
    by code_simp
  have b: "\<not> str_in [TAB, CHR ''#''] ''package==1.0.0  # comment''" by code_simp
  have c: "lower ''package'' = ''package''" by code_simp
  have h1: "Requirement_parse ?L ''package==1.0.0  # comment'' 2 None = Inr ?r"
    unfolding Requirement_parse_def using b by (simp add: a c parsed_hashCmp_def)
  have h2: "name ?r = ''package''" by (simp add: Requirement_init_def)
  have h3: "fst (latest_version_within_specs ?L ?r) = Inr (Some ''1.2.0'')" by code_simp
  have e: "join [LF] (map (rewrite_line ''package==1.0.0  # comment'' ''package==1.2.0 # comment'')
             (lines_nl (''flask==0.1'' @ [LF] @ ''package==1.0.0  # comment'' @ [CR, LF] @ ''django'')))
           = ''flask==0.1'' @ [LF] @ ''package==1.2.0 # comment'' @ [CR, LF] @ ''django''"
    by code_simp
  from update_content_comment_line [OF h1 h2 h3,
      of "''flask==0.1'' @ [LF] @ ''package==1.0.0  # comment'' @ [CR, LF] @ ''django''"]
  have "fst (update_content ?L ?r
          (''flask==0.1'' @ [LF] @ ''package==1.0.0  # comment'' @ [CR, LF] @ ''django''))
        = Inr (''flask==0.1'' @ [LF] @ ''package==1.2.0 # comment'' @ [CR, LF] @ ''django'')"
    by (simp only: e)
  with h1 h3 show ?thesis by (intro conjI)
qed

text \<open>
  The claim as stated has two spaces before the \<^verbatim>\<open>#\<close> of the rewritten line. The code
  writes a single space: applied to the line itself, \<open>update_content\<close> returns
  \<^verbatim>\<open>package==1.2.0 # comment\<close>.
\<close>

theorem update_content_comment_line_one_space:
  "fst (latest_version_within_specs (ex_library [''1.0.0'', ''1.1'', ''1.2.0''])
        (Requirement_init ''package'' [(''=='', ''1.0.0'')] (''package'', [(''=='', ''1.0.0'')])
              ''package==1.0.0  # comment'' 1 None)) = Inr (Some ''1.2.0'')
   \<and> fst (update_content (ex_library [''1.0.0'', ''1.1'', ''1.2.0''])
        (Requirement_init ''package'' [(''=='', ''1.0.0'')] (''package'', [(''=='', ''1.0.0'')])
              ''package==1.0.0  # comment'' 1 None)
        ''package==1.0.0  # comment'')
     = Inr ''package==1.2.0 # comment''
   \<and> fst (update_content (ex_library [''1.0.0'', ''1.1'', ''1.2.0''])
        (Requirement_init ''package'' [(''=='', ''1.0.0'')] (''package'', [(''=='', ''1.0.0'')])
              ''package==1.0.0  # comment'' 1 None)
        ''package==1.0.0  # comment'')
     \<noteq> Inr ''package==1.2.0  # comment''"
  by code_simp

text \<open>
  Claim C9 at a failing input. The requirement is the one parsed from the line
  \<^verbatim>\<open>package==1.0.0 # see C:\<close> followed by a backslash (the comment ends with it), and the content
  \<^verbatim>\<open>flask==0.1\<close> does not hold that line. \<open>update_content\<close> does not return the content:
  the replacement line is handed to \<^verbatim>\<open>re.sub\<close> as a template, its last character is a
  backslash without a character behind it, and the call raises.
\<close>

theorem update_content_absent_line_raises:
  "Requirement_parse (ex_library [''1.0.0'', ''1.2.0'']) (''package==1.0.0 # see C:'' @ [BACKSLASH]) 1 None
     = Inr (Requirement_init ''package'' [(''=='', ''1.0.0'')] (''package'', [(''=='', ''1.0.0'')])
            (''package==1.0.0 # see C:'' @ [BACKSLASH]) 1 None)
   \<and> fst (latest_version_within_specs (ex_library [''1.0.0'', ''1.2.0''])
         (Requirement_init ''package'' [(''=='', ''1.0.0'')] (''package'', [(''=='', ''1.0.0'')])
            (''package==1.0.0 # see C:'' @ [BACKSLASH]) 1 None)) = Inr (Some ''1.2.0'')
   \<and> lines_nl ''flask==0.1'' = [''flask==0.1'']
   \<and> fst (update_content (ex_library [''1.0.0'', ''1.2.0''])
         (Requirement_init ''package'' [(''=='', ''1.0.0'')] (''package'', [(''=='', ''1.0.0'')])
            (''package==1.0.0 # see C:'' @ [BACKSLASH]) 1 None)
         ''flask==0.1'') = Inl ReError"
proof (intro conjI)
  let ?L = "ex_library [''1.0.0'', ''1.2.0'']"
  have a: "parse_requirements ?L (''package==1.0.0 # see C:'' @ [BACKSLASH])
             = Some [\<lparr> project_name = ''package'', parsed_specs = [(''=='', ''1.0.0'')] \<rparr>]"
    by code_simp
  have b: "\<not> str_in [TAB, CHR ''#''] (''package==1.0.0 # see C:'' @ [BACKSLASH])" by code_simp
  have c: "lower ''package'' = ''package''" by code_simp
  show "Requirement_parse ?L (''package==1.0.0 # see C:'' @ [BACKSLASH]) 1 None
     = Inr (Requirement_init ''package'' [(''=='', ''1.0.0'')] (''package'', [(''=='', ''1.0.0'')])
            (''package==1.0.0 # see C:'' @ [BACKSLASH]) 1 None)"
    using Requirement_parse_one [OF b a, of 1 None] by (simp add: parsed_hashCmp_def c)
qed code_simp+

text \<open>
  Claim C10 at a failing input. The content holds the line of the same requirement
  twice; no occurrence is replaced, because the call raises for the same reason.
\<close>

theorem update_content_repeated_line_raises:
  "lines_nl (''package==1.0.0 # see C:'' @ [BACKSLASH, LF] @ ''package==1.0.0 # see C:'' @ [BACKSLASH])
     = [''package==1.0.0 # see C:'' @ [BACKSLASH], ''package==1.0.0 # see C:'' @ [BACKSLASH]]
   \<and> fst (update_content (ex_library [''1.0.0'', ''1.2.0''])
         (Requirement_init ''package'' [(''=='', ''1.0.0'')] (''package'', [(''=='', ''1.0.0'')])
            (''package==1.0.0 # see C:'' @ [BACKSLASH]) 1 None)
         (''package==1.0.0 # see C:'' @ [BACKSLASH, LF] @ ''package==1.0.0 # see C:'' @ [BACKSLASH]))
     = Inl ReError"
  by code_simp

section \<open>The inline filter\<close>

lemma prereleases_state:
  "prereleases L (r\<lparr> p_package := q, p_fetched_package := b \<rparr>) = prereleases L r"
  by (simp add: prereleases_def is_pinned_def)

lemma filter_rq_nonempty: "filter_rq L r = Some fs \<Longrightarrow> fs \<noteq> []"
  by (auto simp: filter_rq_def Let_def split: if_splits option.splits list.splits)

text \<open>
  Claim C5. When the line of a requirement carries a filter whose parsed specs are not
  empty (the property \<open>filter\<close> answers them), \<open>latest_version_within_specs\<close> is the
  result of the Version Resolver for the filter's specs alone, on the known versions of
  the package and with the requirement's pre-release flag. When \<open>filter\<close> answers
  \<^verbatim>\<open>False\<close>, \<open>latest_version_within_specs\<close> is \<open>latest_version\<close>.
\<close>

theorem latest_version_within_specs_filter:
  fixes L :: "('ss, 'k::linorder) library"
  shows "(\<forall>fs p. filter_rq L r = Some fs \<and> fst (package L r) = Some p \<longrightarrow>
            fs \<noteq> [] \<and>
            fst (latest_version_within_specs L r)
              = get_latest_version_within_specs L fs (versions p) (Some (prereleases L r)))
       \<and> (filter_rq L r = None \<longrightarrow> latest_version_within_specs L r = latest_version L r)"
proof (intro conjI allI impI)
  fix fs p
  assume h: "filter_rq L r = Some fs \<and> fst (package L r) = Some p"
  then show "fs \<noteq> []" by (auto dest: filter_rq_nonempty)
  show "fst (latest_version_within_specs L r)
          = get_latest_version_within_specs L fs (versions p) (Some (prereleases L r))"
    using h
    by (simp add: latest_version_within_specs_def case_prod_beta package_state prereleases_state)
next
  assume "filter_rq L r = None"
  then show "latest_version_within_specs L r = latest_version L r"
    by (simp add: latest_version_within_specs_def)
qed

text \<open>
  The line \<^verbatim>\<open>package>=1.0,<2.0  # pyup: <1.5\<close> against the versions 1.0, 1.4, 1.6, 1.9 and
  2.1: the filter is \<^verbatim>\<open><1.5\<close> and the answer is 1.4, where the specs of the line alone
  would give 1.9.
\<close>

theorem latest_version_within_specs_filter_witness:
  "filter_rq (ex_library [''1.0'', ''1.4'', ''1.6'', ''1.9'', ''2.1''])
      (Requirement_init ''package'' [(''>='', ''1.0''), (''<'', ''2.0'')]
         (''package'', [(''>='', ''1.0''), (''<'', ''2.0'')]) ''package>=1.0,<2.0  # pyup: <1.5'' 1 None)
     = Some [(''<'', ''1.5'')]
   \<and> fst (package (ex_library [''1.0'', ''1.4'', ''1.6'', ''1.9'', ''2.1''])
      (Requirement_init ''package'' [(''>='', ''1.0''), (''<'', ''2.0'')]
         (''package'', [(''>='', ''1.0''), (''<'', ''2.0'')]) ''package>=1.0,<2.0  # pyup: <1.5'' 1 None))
     = Some (ex_package [''1.0'', ''1.4'', ''1.6'', ''1.9'', ''2.1''])
   \<and> fst (latest_version_within_specs (ex_library [''1.0'', ''1.4'', ''1.6'', ''1.9'', ''2.1''])
      (Requirement_init ''package'' [(''>='', ''1.0''), (''<'', ''2.0'')]
         (''package'', [(''>='', ''1.0''), (''<'', ''2.0'')]) ''package>=1.0,<2.0  # pyup: <1.5'' 1 None))
     = get_latest_version_within_specs (ex_library [''1.0'', ''1.4'', ''1.6'', ''1.9'', ''2.1''])
         [(''<'', ''1.5'')] [''1.0'', ''1.4'', ''1.6'', ''1.9'', ''2.1''] (Some False)
   \<and> get_latest_version_within_specs (ex_library [''1.0'', ''1.4'', ''1.6'', ''1.9'', ''2.1''])
         [(''<'', ''1.5'')] [''1.0'', ''1.4'', ''1.6'', ''1.9'', ''2.1''] (Some False)
     = Inr (Some ''1.4'')
   \<and> get_latest_version_within_specs (ex_library [''1.0'', ''1.4'', ''1.6'', ''1.9'', ''2.1''])
         [(''>='', ''1.0''), (''<'', ''2.0'')] [''1.0'', ''1.4'', ''1.6'', ''1.9'', ''2.1''] (Some False)
     = Inr (Some ''1.9'')
   \<and> filter_rq (ex_library [''1.0'', ''1.4'', ''1.6'', ''1.9'', ''2.1''])
      (Requirement_init ''package'' [(''=='', ''1.0'')] (''package'', [(''=='', ''1.0'')])
         ''package==1.0'' 1 None) = None
   \<and> fst (latest_version_within_specs (ex_library [''1.0'', ''1.4'', ''1.6'', ''1.9'', ''2.1''])
      (Requirement_init ''package'' [(''=='', ''1.0'')] (''package'', [(''=='', ''1.0'')])
         ''package==1.0'' 1 None))
     = fst (latest_version (ex_library [''1.0'', ''1.4'', ''1.6'', ''1.9'', ''2.1''])
      (Requirement_init ''package'' [(''=='', ''1.0'')] (''package'', [(''=='', ''1.0'')])
         ''package==1.0'' 1 None))"
proof -
  let ?vs = "[''1.0'', ''1.4'', ''1.6'', ''1.9'', ''2.1'']"
  let ?L = "ex_library ?vs"
  let ?r = "Requirement_init ''package'' [(''>='', ''1.0''), (''<'', ''2.0'')]
         (''package'', [(''>='', ''1.0''), (''<'', ''2.0'')]) ''package>=1.0,<2.0  # pyup: <1.5'' 1 None"
  let ?q = "Requirement_init ''package'' [(''=='', ''1.0'')] (''package'', [(''=='', ''1.0'')])
         ''package==1.0'' 1 None"
  have f: "filter_rq ?L ?r = Some [(''<'', ''1.5'')]" by code_simp
  have p: "fst (package ?L ?r) = Some (ex_package ?vs)"
    by (simp add: package_def Requirement_init_def ex_library_def Let_def)
  have v: "versions (ex_package ?vs) = ?vs" by (simp add: ex_package_def)
  have pre: "prereleases ?L ?r = False" by code_simp
  have g1: "get_latest_version_within_specs ?L [(''<'', ''1.5'')] ?vs (Some False) = Inr (Some ''1.4'')"
    by code_simp
  have g2: "get_latest_version_within_specs ?L [(''>='', ''1.0''), (''<'', ''2.0'')] ?vs (Some False)
              = Inr (Some ''1.9'')"
    by code_simp
  have n: "filter_rq ?L ?q = None" by code_simp
  from latest_version_within_specs_filter [of ?L ?r] f p
  have "fst (latest_version_within_specs ?L ?r)
          = get_latest_version_within_specs ?L [(''<'', ''1.5'')] (versions (ex_package ?vs))
              (Some (prereleases ?L ?r))"
    by blast
  then have a: "fst (latest_version_within_specs ?L ?r)
             = get_latest_version_within_specs ?L [(''<'', ''1.5'')] ?vs (Some False)"
    by (simp only: v pre)
  have b: "latest_version_within_specs ?L ?q = latest_version ?L ?q"
    using latest_version_within_specs_filter [of ?L ?q] n by blast
  show ?thesis using f p a g1 g2 n b by (intro conjI) (simp_all only:)
qed

section \<open>Equality of requirements\<close>

lemma Requirement_parse_parsed:
  assumes "Requirement_parse L s n idx = Inr r"
  shows "\<exists>p. parse_requirements L (if str_in [TAB, CHR ''#''] s
                    then replace s [TAB, CHR ''#''] [TAB, CHR '' '', CHR ''#''] else s) = Some [p]
             \<and> r = Requirement_init (project_name p) (parsed_specs p) (parsed_hashCmp p) s n idx"
  using assms by (auto simp: Requirement_parse_def split: option.splits list.splits)

lemma Requirement_parse_hashCmp:
  assumes "Requirement_parse L s n idx = Inr r"
  shows "hashCmp r = (lower (name r), specs r)"
  using Requirement_parse_parsed [OF assms]
  by (auto simp: Requirement_init_def parsed_hashCmp_def)

lemma Requirement_parse_same_text:
  assumes "Requirement_parse L s n i = Inr ra" and "Requirement_parse L s m j = Inr rb"
  shows "hashCmp ra = hashCmp rb"
  using Requirement_parse_parsed [OF assms(1)] Requirement_parse_parsed [OF assms(2)]
  by (auto simp: Requirement_init_def)

text \<open>
  Claim C8. Two requirements are equal exactly when their comparators are equal. Two
  requirements parsed from the same text are equal, whatever their line numbers and
  index servers; two parsed requirements whose specs differ are not equal. The equality
  is reflexive, symmetric and transitive.
\<close>

theorem Requirement_eq_hashCmp:
  "(Requirement_eq a b \<longleftrightarrow> hashCmp a = hashCmp b)
   \<and> (\<forall>s n m i j ra rb. Requirement_parse L s n i = Inr ra \<and> Requirement_parse L s m j = Inr rb
          \<longrightarrow> Requirement_eq ra rb)
   \<and> (\<forall>s t n m i j ra rb. Requirement_parse L s n i = Inr ra \<and> Requirement_parse L t m j = Inr rb
          \<and> specs ra \<noteq> specs rb \<longrightarrow> \<not> Requirement_eq ra rb)
   \<and> Requirement_eq a a
   \<and> (Requirement_eq a b \<longrightarrow> Requirement_eq b a)
   \<and> (Requirement_eq a b \<and> Requirement_eq b c \<longrightarrow> Requirement_eq a c)"
proof (intro conjI allI impI)
  fix s t n m i j ra rb
  assume "Requirement_parse L s n i = Inr ra \<and> Requirement_parse L t m j = Inr rb
            \<and> specs ra \<noteq> specs rb"
  then show "\<not> Requirement_eq ra rb"
    using Requirement_parse_hashCmp [of L s n i ra] Requirement_parse_hashCmp [of L t m j rb]
    by (simp add: Requirement_eq_def)
next
  fix s n m i j ra rb
  assume "Requirement_parse L s n i = Inr ra \<and> Requirement_parse L s m j = Inr rb"
  then show "Requirement_eq ra rb"
    using Requirement_parse_same_text [of L s n i ra m j rb] by (simp add: Requirement_eq_def)
qed (simp_all add: Requirement_eq_def)

theorem Requirement_eq_hashCmp_witness:
  "Requirement_parse (ex_library []) ''package==1.0.0'' 1 None
     = Inr (Requirement_init ''package'' [(''=='', ''1.0.0'')] (''package'', [(''=='', ''1.0.0'')])
              ''package==1.0.0'' 1 None)
   \<and> Requirement_parse (ex_library []) ''package==1.0.0'' 7 (Some ''https://pypi.example.com/simple/'')
     = Inr (Requirement_init ''package'' [(''=='', ''1.0.0'')] (''package'', [(''=='', ''1.0.0'')])
              ''package==1.0.0'' 7 (Some ''https://pypi.example.com/simple/''))
   \<and> Requirement_parse (ex_library []) ''package==1.2.0'' 1 None
     = Inr (Requirement_init ''package'' [(''=='', ''1.2.0'')] (''package'', [(''=='', ''1.2.0'')])
              ''package==1.2.0'' 1 None)
   \<and> Requirement_eq
        (Requirement_init ''package'' [(''=='', ''1.0.0'')] (''package'', [(''=='', ''1.0.0'')])
              ''package==1.0.0'' 1 None)
        (Requirement_init ''package'' [(''=='', ''1.0.0'')] (''package'', [(''=='', ''1.0.0'')])
              ''package==1.0.0'' 7 (Some ''https://pypi.example.com/simple/''))
   \<and> Requirement_eq
        (Requirement_init ''package'' [(''=='', ''1.0.0'')] (''package'', [(''=='', ''1.0.0'')])
              ''package==1.0.0'' 7 (Some ''https://pypi.example.com/simple/''))
        (Requirement_init ''package'' [(''=='', ''1.0.0'')] (''package'', [(''=='', ''1.0.0'')])
              ''package==1.0.0'' 1 None)
   \<and> Requirement_eq
        (Requirement_init ''package'' [(''=='', ''1.0.0'')] (''package'', [(''=='', ''1.0.0'')])
              ''package==1.0.0'' 1 None)
        (Requirement_init ''package'' [(''=='', ''1.0.0'')] (''package'', [(''=='', ''1.0.0'')])
              ''package==1.0.0'' 3 None)
   \<and> \<not> Requirement_eq
        (Requirement_init ''package'' [(''=='', ''1.0.0'')] (''package'', [(''=='', ''1.0.0'')])
              ''package==1.0.0'' 1 None)
        (Requirement_init ''package'' [(''=='', ''1.2.0'')] (''package'', [(''=='', ''1.2.0'')])
              ''package==1.2.0'' 1 None)"
proof -
  let ?L = "ex_library []"
  let ?d = "Requirement_init ''package'' [(''=='', ''1.0.0'')] (''package'', [(''=='', ''1.0.0'')])
              ''package==1.0.0'' 3 None"
  let ?a = "Requirement_init ''package'' [(''=='', ''1.0.0'')] (''package'', [(''=='', ''1.0.0'')])
              ''package==1.0.0'' 1 None"
  let ?b = "Requirement_init ''package'' [(''=='', ''1.0.0'')] (''package'', [(''=='', ''1.0.0'')])
              ''package==1.0.0'' 7 (Some ''https://pypi.example.com/simple/'')"
  let ?c = "Requirement_init ''package'' [(''=='', ''1.2.0'')] (''package'', [(''=='', ''1.2.0'')])
              ''package==1.2.0'' 1 None"
  have p1: "parse_requirements ?L ''package==1.0.0''
              = Some [\<lparr> project_name = ''package'', parsed_specs = [(''=='', ''1.0.0'')] \<rparr>]"
    by code_simp
  have p2: "parse_requirements ?L ''package==1.2.0''
              = Some [\<lparr> project_name = ''package'', parsed_specs = [(''=='', ''1.2.0'')] \<rparr>]"
    by code_simp
  have t1: "\<not> str_in [TAB, CHR ''#''] ''package==1.0.0''" by code_simp
  have t2: "\<not> str_in [TAB, CHR ''#''] ''package==1.2.0''" by code_simp
  have lw: "lower ''package'' = ''package''" by code_simp
  have a: "Requirement_parse ?L ''package==1.0.0'' 1 None = Inr ?a"
    using Requirement_parse_one [OF t1 p1, of 1 None] by (simp add: parsed_hashCmp_def lw)
  have b: "Requirement_parse ?L ''package==1.0.0'' 7 (Some ''https://pypi.example.com/simple/'') = Inr ?b"
    using Requirement_parse_one [OF t1 p1, of 7 "Some ''https://pypi.example.com/simple/''"]
    by (simp add: parsed_hashCmp_def lw)
  have c: "Requirement_parse ?L ''package==1.2.0'' 1 None = Inr ?c"
    using Requirement_parse_one [OF t2 p2, of 1 None] by (simp add: parsed_hashCmp_def lw)
  have d: "specs ?a \<noteq> specs ?c" by (simp add: Requirement_init_def)
  have e1: "Requirement_eq ?a ?b"
    using Requirement_eq_hashCmp [of ?a ?b ?L ?c] a b by blast
  have e2: "\<not> Requirement_eq ?a ?c"
    using Requirement_eq_hashCmp [of ?a ?b ?L ?c] a c d by blast
  have e3: "Requirement_eq ?b ?a"
    using Requirement_eq_hashCmp [of ?a ?b ?L ?c] e1 by blast
  have d': "Requirement_parse ?L ''package==1.0.0'' 3 None = Inr ?d"
    using Requirement_parse_one [OF t1 p1, of 3 None] by (simp add: parsed_hashCmp_def lw)
  have e4: "Requirement_eq ?b ?d"
    using Requirement_eq_hashCmp [of ?a ?b ?L ?d] b d' by blast
  have e5: "Requirement_eq ?a ?d"
    using Requirement_eq_hashCmp [of ?a ?b ?L ?d] e1 e4 by blast
  show ?thesis using a b c e1 e3 e5 e2 by (intro conjI)
qed

section \<open>Parsing a file\<close>

text \<open>
  What holds of the ignore-file marker: on the first line it leaves the file invalid with
  no requirement and no other file; on the second line it leaves the file invalid.
\<close>

lemma parse_line_ignore_file:
  assumes "str_in ''pyup: ignore file'' (strip raw)"
  shows "parse_line L pth 0 raw st = None" and "parse_line L pth (Suc 0) raw st = None"
proof -
  have "strip raw \<noteq> []" using assms by auto
  then show "parse_line L pth 0 raw st = None" and "parse_line L pth (Suc 0) raw st = None"
    using assms by (cases st; auto simp: parse_line_def Let_def)+
qed

lemma parse_loop_ignore_file_first:
  assumes "str_in ''pyup: ignore file'' (strip raw)"
  shows "parse_loop L pth (enumerate_from 0 (raw # ls)) st = (Returned, snd st)"
  by (simp add: parse_line_ignore_file(1) [OF assms])

lemma parse_loop_ignore_file_second:
  assumes "str_in ''pyup: ignore file'' (strip raw1)"
  shows "fst (parse_loop L pth (enumerate_from 0 (raw0 # raw1 # ls)) st) = Returned"
proof (cases "parse_line L pth 0 raw0 st")
  case None
  then show ?thesis by simp
next
  case (Some st1)
  then show ?thesis by (simp add: parse_line_ignore_file(2) [OF assms])
qed

lemma parse_file_ignore_first:
  assumes "splitlines (content f) = raw # ls" and "str_in ''pyup: ignore file'' (strip raw)"
  shows "RequirementFile_parse L f
           = f\<lparr> p_requirements := Some [], p_other_files := Some [], p_is_valid := Some False,
                parse_passes := parse_passes f + 1 \<rparr>"
  unfolding RequirementFile_parse_def assms(1) parse_loop_ignore_file_first [OF assms(2)]
  by simp

lemma parse_file_ignore_second:
  assumes "splitlines (content f) = raw0 # raw1 # ls"
    and "str_in ''pyup: ignore file'' (strip raw1)"
  shows "p_is_valid (RequirementFile_parse L f) = Some False"
proof -
  obtain reqs others where
    "parse_loop L (path f) (enumerate_from 0 (raw0 # raw1 # ls)) (None, [], [])
       = (Returned, reqs, others)"
    using parse_loop_ignore_file_second [OF assms(2), of L "path f" raw0 ls "(None, [], [])"]
    by (metis fst_conv surj_pair)
  then show ?thesis
    unfolding RequirementFile_parse_def assms(1) by simp
qed

lemma ignore_file_first_line:
  assumes "splitlines cnt = raw # ls" and "str_in ''pyup: ignore file'' (strip raw)"
  shows "fst (is_valid L (RequirementFile_init pth cnt sh)) = Some False
       \<and> fst (requirements L (RequirementFile_init pth cnt sh)) = Some []
       \<and> fst (other_files L (RequirementFile_init pth cnt sh)) = Some []"
proof -
  let ?f = "RequirementFile_init pth cnt sh"
  have c: "splitlines (content ?f) = raw # ls"
    using assms(1) by (simp add: RequirementFile_init_def)
  have n: "p_is_valid ?f = None" "p_requirements ?f = None" "p_other_files ?f = None"
    by (simp_all add: RequirementFile_init_def)
  show ?thesis
    by (simp add: is_valid_def requirements_def other_files_def n
        parse_file_ignore_first [OF c assms(2)])
qed

lemma ignore_file_second_line_invalid:
  assumes "splitlines cnt = raw0 # raw1 # ls" and "str_in ''pyup: ignore file'' (strip raw1)"
  shows "fst (is_valid L (RequirementFile_init pth cnt sh)) = Some False"
proof -
  let ?f = "RequirementFile_init pth cnt sh"
  have c: "splitlines (content ?f) = raw0 # raw1 # ls"
    using assms(1) by (simp add: RequirementFile_init_def)
  have n: "p_is_valid ?f = None" by (simp add: RequirementFile_init_def)
  show ?thesis
    by (simp add: is_valid_def n parse_file_ignore_second [OF c assms(2)])
qed

text \<open>
  Claim C4 at a failing input. The marker \<^verbatim>\<open>pyup: ignore file\<close> stands on the second line.
  The file is invalid, but what the first line gave is kept: the other file
  \<^verbatim>\<open>base.txt\<close> of \<^verbatim>\<open>-r base.txt\<close>, or the requirement of \<^verbatim>\<open>django==1.0\<close>.
\<close>

theorem ignore_file_second_line_keeps_first:
  "fst (is_valid L (RequirementFile_init ''requirements.txt''
          (''-r base.txt'' @ [LF] @ ''# pyup: ignore file'') None)) = Some False
   \<and> fst (other_files L (RequirementFile_init ''requirements.txt''
          (''-r base.txt'' @ [LF] @ ''# pyup: ignore file'') None)) = Some [''base.txt'']
   \<and> fst (is_valid (ex_library [''1.0'']) (RequirementFile_init ''requirements.txt''
          (''django==1.0'' @ [LF] @ ''# pyup: ignore file'') None)) = Some False
   \<and> map_option (map line) (fst (requirements (ex_library [''1.0'']) (RequirementFile_init ''requirements.txt''
          (''django==1.0'' @ [LF] @ ''# pyup: ignore file'') None))) = Some [''django==1.0'']"
  by code_simp

text \<open>
  What holds of the cache: a parse sets all three attributes; from a consistent state
  every access leaves \<^verbatim>\<open>_is_valid\<close> set, so that \<open>is_valid\<close> never parses after a first
  access to any of the three; \<open>requirements\<close> and \<open>other_files\<close> parse again exactly when
  their list is empty.
\<close>

lemma parse_fills:
  "p_is_valid (RequirementFile_parse L f) \<noteq> None
   \<and> p_requirements (RequirementFile_parse L f) \<noteq> None
   \<and> p_other_files (RequirementFile_parse L f) \<noteq> None
   \<and> parse_passes (RequirementFile_parse L f) = parse_passes f + 1"
  by (auto simp: RequirementFile_parse_def split: prod.splits loop_end.splits)

lemma consistent_init: "consistent (RequirementFile_init pth cnt sh)"
  by (simp add: consistent_def RequirementFile_init_def)

lemma consistent_access:
  assumes "consistent f"
  shows "p_is_valid (snd (is_valid L f)) \<noteq> None"
    and "p_is_valid (snd (requirements L f)) \<noteq> None"
    and "p_is_valid (snd (other_files L f)) \<noteq> None"
  using assms parse_fills [of L f]
  by (auto simp: consistent_def is_valid_def requirements_def other_files_def Let_def)

lemma is_valid_cached:
  "p_is_valid f \<noteq> None \<Longrightarrow> is_valid L f = (p_is_valid f, f)"
  by (auto simp: is_valid_def Let_def)

lemma requirements_passes:
  assumes "p_requirements f = Some rs"
  shows "parse_passes (snd (requirements L f)) = parse_passes f + (if rs = [] then 1 else 0)"
  using assms parse_fills [of L f] by (cases rs) (simp_all add: requirements_def Let_def)

lemma other_files_passes:
  assumes "p_other_files f = Some fs"
  shows "parse_passes (snd (other_files L f)) = parse_passes f + (if fs = [] then 1 else 0)"
  using assms parse_fills [of L f] by (cases fs) (simp_all add: other_files_def Let_def)

lemma is_valid_parses_once:
  assumes "consistent f"
  shows "parse_passes (snd (is_valid L (snd (is_valid L f)))) = parse_passes (snd (is_valid L f))"
    and "parse_passes (snd (is_valid L (snd (requirements L f)))) = parse_passes (snd (requirements L f))"
    and "parse_passes (snd (is_valid L (snd (other_files L f)))) = parse_passes (snd (other_files L f))"
  using consistent_access [OF assms, of L] by (simp_all add: is_valid_cached)

text \<open>
  Claim C6 at a failing input. A file that holds only a comment has no requirements and
  no other files. Each access to \<open>requirements\<close> or \<open>other_files\<close> finds the empty list and
  parses the content again; only \<open>is_valid\<close> parses once. Likewise each access to
  \<open>other_files\<close> parses again for a file that has a requirement and no other file.
\<close>

theorem requirements_parses_again:
  "parse_passes (snd (requirements L (RequirementFile_init ''requirements.txt''
          ''# nothing pinned yet'' None))) = 1
   \<and> parse_passes (snd (requirements L (snd (requirements L (RequirementFile_init ''requirements.txt''
          ''# nothing pinned yet'' None))))) = 2
   \<and> parse_passes (snd (other_files L (snd (requirements L (snd (requirements L
          (RequirementFile_init ''requirements.txt'' ''# nothing pinned yet'' None))))))) = 3
   \<and> parse_passes (snd (other_files (ex_library [''1.0'']) (snd (other_files (ex_library [''1.0''])
          (RequirementFile_init ''requirements.txt'' ''django==1.0'' None))))) = 2
   \<and> parse_passes (snd (is_valid L (snd (is_valid L (RequirementFile_init ''requirements.txt''
          ''# nothing pinned yet'' None))))) = 1"
  by code_simp

text \<open>
  What holds of the index server: the loop only appends requirements, and each
  requirement it appends carries the index server in effect behind the lines above its
  own, starting from \<^verbatim>\<open>None\<close> at the top of the file.
\<close>

lemma package_fields:
  "lineno (snd (package L r)) = lineno r" "index_server (snd (package L r)) = index_server r"
  "line (snd (package L r)) = line r"
  by (simp_all add: package_def Let_def)

lemma directive_not_blank:
  "is_index_directive ln \<Longrightarrow> ln \<noteq> [] \<and> \<not> startswith ln ''#''"
  by (cases ln) (auto simp: is_index_directive_def startswith_def)

lemma parse_line_step:
  assumes "parse_line L pth n raw (idx, reqs, others) = Some (idx1, reqs1, others1)"
  shows "idx1 = (if is_index_directive (strip raw) then parse_index_server (strip raw) else idx)"
    and "reqs1 = reqs \<or> (\<exists>r. reqs1 = reqs @ [r] \<and> lineno r = n + 1 \<and> index_server r = idx
                              \<and> line r = strip raw \<and> \<not> is_index_directive (strip raw))"
proof -
  show "idx1 = (if is_index_directive (strip raw) then parse_index_server (strip raw) else idx)"
    using assms directive_not_blank [of "strip raw"]
    by (auto simp: parse_line_def Let_def is_index_directive_def
        split: if_splits sum.splits option.splits prod.splits)
  show "reqs1 = reqs \<or> (\<exists>r. reqs1 = reqs @ [r] \<and> lineno r = n + 1 \<and> index_server r = idx
                              \<and> line r = strip raw \<and> \<not> is_index_directive (strip raw))"
    using assms
    by (auto simp: parse_line_def Let_def is_index_directive_def
        split: if_splits sum.splits option.splits prod.splits
        dest!: Requirement_parse_fields)
       (metis package_fields snd_conv)+
qed

lemma index_server_scope_loop:
  assumes "parse_loop L pth (enumerate_from n ls) (idx, reqs, others) = (e, reqs', others')"
  shows "\<exists>new. reqs' = reqs @ new
           \<and> list_all (\<lambda>r. n < lineno r \<and> lineno r \<le> n + length ls
                          \<and> index_server r = index_in_effect idx (take (lineno r - 1 - n) ls)) new"
  using assms
proof (induction ls arbitrary: n idx reqs others)
  case Nil
  then show ?case by simp
next
  case (Cons raw ls)
  show ?case
  proof (cases "parse_line L pth n raw (idx, reqs, others)")
    case None
    then show ?thesis using Cons.prems by simp
  next
    case (Some st1)
    obtain idx1 reqs1 others1 where st1: "st1 = (idx1, reqs1, others1)" by (cases st1) auto
    have step: "parse_line L pth n raw (idx, reqs, others) = Some (idx1, reqs1, others1)"
      using Some st1 by simp
    have loop: "parse_loop L pth (enumerate_from (Suc n) ls) (idx1, reqs1, others1) = (e, reqs', others')"
      using Cons.prems step by simp
    from Cons.IH [OF loop] obtain new where
      new: "reqs' = reqs1 @ new"
      and all: "list_all (\<lambda>r. Suc n < lineno r \<and> lineno r \<le> Suc n + length ls
                 \<and> index_server r = index_in_effect idx1 (take (lineno r - 1 - Suc n) ls)) new"
      by blast
    have idx1: "idx1 = (if is_index_directive (strip raw) then parse_index_server (strip raw) else idx)"
      by (rule parse_line_step(1) [OF step])
    have later: "list_all (\<lambda>r. n < lineno r \<and> lineno r \<le> n + length (raw # ls)
                 \<and> index_server r = index_in_effect idx (take (lineno r - 1 - n) (raw # ls))) new"
    proof -
      have "index_in_effect idx (take (k - 1 - n) (raw # ls))
              = index_in_effect idx1 (take (k - 1 - Suc n) ls)" if "Suc n < k" for k
      proof -
        from that obtain j where "k - 1 - n = Suc j" and "k - 1 - Suc n = j"
          by (metis Suc_diff_Suc diff_Suc_eq_diff_pred less_diff_conv plus_1_eq_Suc add.commute
              diff_diff_left)
        then show ?thesis using idx1 by simp
      qed
      then show ?thesis using all by (auto simp: list_all_iff)
    qed
    from parse_line_step(2) [OF step] show ?thesis
    proof
      assume "reqs1 = reqs"
      then show ?thesis using new later by auto
    next
      assume "\<exists>r. reqs1 = reqs @ [r] \<and> lineno r = n + 1 \<and> index_server r = idx
                \<and> line r = strip raw \<and> \<not> is_index_directive (strip raw)"
      then obtain r where r: "reqs1 = reqs @ [r]" "lineno r = n + 1" "index_server r = idx" by blast
      then have "reqs' = reqs @ (r # new)" using new by simp
      moreover have "n < lineno r \<and> lineno r \<le> n + length (raw # ls)
                 \<and> index_server r = index_in_effect idx (take (lineno r - 1 - n) (raw # ls))"
        using r by simp
      ultimately show ?thesis using later by (intro exI [of _ "r # new"]) simp
    qed
  qed
qed

lemma index_server_scope:
  assumes "p_requirements (RequirementFile_parse L f) = Some rs"
  shows "list_all (\<lambda>r. 0 < lineno r \<and> lineno r \<le> length (splitlines (content f))
                   \<and> index_server r
                       = index_in_effect None (take (lineno r - 1) (splitlines (content f)))) rs"
proof -
  obtain e reqs others where
    loop: "parse_loop L (path f) (enumerate_from 0 (splitlines (content f))) (None, [], [])
             = (e, reqs, others)"
    by (metis surj_pair)
  then have "rs = reqs" using assms
    by (cases e) (simp_all add: RequirementFile_parse_def)
  then show ?thesis using index_server_scope_loop [OF loop] by auto
qed

lemma split_from_char_last:
  "c \<notin> set a \<Longrightarrow> split_from [c] cur a = [cur @ a]"
  by (induction a arbitrary: cur) (auto simp: startswith_def)

lemma split_from_char:
  "c \<notin> set a \<Longrightarrow> split_from [c] cur (a @ c # b) = (cur @ a) # split_from [c] [] b"
  by (induction a arbitrary: cur) (auto simp: startswith_def)

lemma words_from_word:
  "list_all (\<lambda>c. \<not> is_space c) a \<Longrightarrow> words_from cur (a @ rest) = words_from (cur @ a) rest"
  by (induction a arbitrary: cur) auto

lemma takeWhile_all: "x \<notin> set s \<Longrightarrow> takeWhile (\<lambda>c. c \<noteq> x) s = s"
  by (induction s) auto

lemma strip_no_space:
  "list_all (\<lambda>c. \<not> is_space c) s \<Longrightarrow> strip s = s"
proof (cases s rule: rev_cases)
  case Nil
  then show ?thesis by (simp add: strip_def)
next
  case (snoc ys y)
  assume a: "list_all (\<lambda>c. \<not> is_space c) s"
  then have 1: "dropWhile is_space s = s" by (cases s) auto
  have "\<not> is_space y" using a snoc by simp
  then have 2: "dropWhile is_space (rev s) = rev s" using snoc by simp
  show ?thesis by (simp add: strip_def 1 2)
qed

text \<open>
  A directive written with exactly one space between the flag and the URL, neither holding
  white space or a comment mark: the URL read by \<open>parse_index_server\<close> is the first token
  after the flag, closed by a slash.
\<close>

lemma index_server_single_space:
  assumes "flag \<noteq> []" and "url \<noteq> []"
    and "list_all (\<lambda>c. \<not> is_space c \<and> c \<noteq> CHR ''#'') flag"
    and "list_all (\<lambda>c. \<not> is_space c \<and> c \<noteq> CHR ''#'') url"
  shows "parse_index_server (flag @ '' '' @ url) = Some (if endswith url ''/'' then url else url @ ''/'')"
    and "spec_index_server (flag @ '' '' @ url) = parse_index_server (flag @ '' '' @ url)"
proof -
  have sp: "is_space CHR '' ''" by (simp add: is_space_def)
  have f: "list_all (\<lambda>c. \<not> is_space c) flag" "CHR ''#'' \<notin> set flag" "CHR '' '' \<notin> set flag"
    using assms(3) sp by (auto simp: list_all_iff)
  have u: "list_all (\<lambda>c. \<not> is_space c) url" "CHR ''#'' \<notin> set url" "CHR '' '' \<notin> set url"
    using assms(4) sp by (auto simp: list_all_iff)
  have nohash: "CHR ''#'' \<notin> set (flag @ '' '' @ url)" using f u by simp
  have h: "split (flag @ CHR '' '' # url) ''#'' = [flag @ CHR '' '' # url]"
    using split_from_char_last [OF nohash, of "[]"] by (simp add: split_def)
  have s: "split (flag @ CHR '' '' # url) '' '' = [flag, url]"
    using split_from_char [OF f(3), of "[]" url] split_from_char_last [OF u(3), of "[]"]
    by (simp add: split_def)
  show p: "parse_index_server (flag @ '' '' @ url) = Some (if endswith url ''/'' then url else url @ ''/'')"
    by (simp add: parse_index_server_def h s strip_no_space [OF u(1)] Let_def)
  have t: "takeWhile (\<lambda>c. c \<noteq> CHR ''#'') (flag @ CHR '' '' # url) = flag @ CHR '' '' # url"
    using takeWhile_all [OF nohash] by simp
  have w: "words_from [] (flag @ CHR '' '' # url) = [flag, url]"
  proof -
    have "words_from [] (flag @ (CHR '' '' # url)) = words_from flag (CHR '' '' # url)"
      using words_from_word [OF f(1), of "[]"] by simp
    also have "\<dots> = flag # words_from [] (url @ [])"
      using assms(1) sp by simp
    also have "\<dots> = flag # words_from url []"
      using words_from_word [OF u(1), of "[]" "[]"] by simp
    finally show ?thesis using assms(2) by simp
  qed
  show "spec_index_server (flag @ '' '' @ url) = parse_index_server (flag @ '' '' @ url)"
    using p by (simp add: spec_index_server_def t w)
qed

text \<open>
  Claim C7 at a failing input. The directive \<^verbatim>\<open>-i\<close> is followed by two spaces and the URL.
  The first token after the flag is the URL, but \<open>parse_index_server\<close> reads the empty
  text between the two spaces: the index server of the requirement behind the directive
  is \<^verbatim>\<open>/\<close>, not the URL with a slash at its end, which is what a single space gives.
\<close>

theorem index_server_two_spaces:
  "spec_index_server ''-i  https://pypi.example.com/simple'' = Some ''https://pypi.example.com/simple/''
   \<and> parse_index_server ''-i  https://pypi.example.com/simple'' = Some ''/''
   \<and> parse_index_server ''-i https://pypi.example.com/simple''
       = spec_index_server ''-i https://pypi.example.com/simple''
   \<and> map_option (map index_server) (fst (requirements (ex_library [''1.0''])
        (RequirementFile_init ''requirements.txt''
           (''-i  https://pypi.example.com/simple'' @ [LF] @ ''django==1.0'') None)))
       = Some [Some ''/'']
   \<and> map_option (map index_server) (fst (requirements (ex_library [''1.0''])
        (RequirementFile_init ''requirements.txt''
           (''-i https://pypi.example.com/simple'' @ [LF] @ ''django==1.0'') None)))
       = Some [Some ''https://pypi.example.com/simple/'']"
  by code_simp

end
